theory Spec2Isabelle
  imports Complex_Main "HOL-Library.Word" "HOL-Library.Sublist"
begin

unbundle bit_operations_syntax

section \<open>JavaScript values and thrown errors\<close>

text \<open>
  The values the services handle: what \<^verbatim>\<open>JSON.parse\<close> returns, the fields of a thrown
  error, the analysis object. An object is the list of its own properties in insertion
  order. An array carries its elements and, since JavaScript lets any object take new
  properties, the named properties set on it afterwards.
\<close>

datatype jsval =
    Undefined
  | Null
  | Bool bool
  | Num rat
  | Str string
  | Arr "jsval list" "(string \<times> jsval) list"
  | Obj "(string \<times> jsval) list"

text \<open>
  A thrown error, as far as the code reads it: \<^verbatim>\<open>status\<close>, \<^verbatim>\<open>code\<close> and
  \<^verbatim>\<open>message\<close>. The first two are compared with \<^verbatim>\<open>===\<close> and may hold anything;
  \<^verbatim>\<open>message\<close> is the string of an \<^verbatim>\<open>Error\<close> object, or absent.
\<close>

record js_error =
  status :: jsval
  code :: jsval
  message :: "string option"

text \<open>\<^verbatim>\<open>new Error(msg)\<close>: a message and neither status nor code.\<close>

definition new_Error :: "string \<Rightarrow> js_error" where
  "new_Error msg = \<lparr>status = Undefined, code = Undefined, message = Some msg\<rparr>"

text \<open>
  \<^verbatim>\<open>String.prototype.includes\<close>: is there a position of \<open>s\<close> at which \<open>needle\<close>
  starts. The scan tries each position from the left.
\<close>

fun str_includes :: "string \<Rightarrow> string \<Rightarrow> bool" where
  "str_includes [] needle = (needle = [])"
| "str_includes (c # cs) needle = (prefix needle (c # cs) \<or> str_includes cs needle)"

section \<open>The retry wrapper (services/geminiService.ts)\<close>

definition MAX_RETRIES :: int where
  "MAX_RETRIES = 2"

definition INITIAL_BACKOFF :: int where
  "INITIAL_BACKOFF = 1000"

text \<open>
  \<^verbatim>\<open>error?.status === 'INTERNAL' || error?.code === 500 || error?.message?.includes('500')\<close>,
  read for its truthiness. An absent message makes the last disjunct \<^verbatim>\<open>undefined\<close>,
  which is falsy.
\<close>

definition isTransient :: "js_error \<Rightarrow> bool" where
  "isTransient error \<longleftrightarrow>
     status error = Str ''INTERNAL'' \<or> code error = Num 500 \<or>
     (case message error of None \<Rightarrow> False | Some m \<Rightarrow> str_includes m ''500'')"

text \<open>
  The wrapped operation takes no argument, so what it does at each invocation is the
  environment's choice: an operation is given by the outcome of its invocation number
  \<open>n\<close> (counted from 0), a rejection (\<open>Inl\<close>) or a value (\<open>Inr\<close>).
\<close>

type_synonym 'a operation = "nat \<Rightarrow> js_error + 'a"

text \<open>What a run of the wrapper does, in order: invoke the operation, or sleep.\<close>

datatype event = Invoke | Sleep int

text \<open>
  \<open>withRetry fn retries delay n\<close>: the wrapper entered when \<open>fn\<close> has been invoked
  \<open>n\<close> times before. It returns the settled promise and the events of the run.
\<close>

function withRetry :: "'a operation \<Rightarrow> int \<Rightarrow> int \<Rightarrow> nat \<Rightarrow> (js_error + 'a) \<times> event list" where
  "withRetry fn retries delay n =
     (case fn n of
        Inr v \<Rightarrow> (Inr v, [Invoke])
      | Inl error \<Rightarrow>
          if isTransient error \<and> retries > 0
          then (case withRetry fn (retries - 1) (delay * 2) (Suc n) of
                  (r, evs) \<Rightarrow> (r, Invoke # Sleep delay # evs))
          else (Inl error, [Invoke]))"
  by pat_completeness auto
termination
  by (relation "measure (\<lambda>(fn, retries, delay, n). nat retries)") auto

declare withRetry.simps [simp del]

text \<open>The call with both defaulted arguments, on a fresh operation.\<close>

definition withRetry_default :: "'a operation \<Rightarrow> (js_error + 'a) \<times> event list" where
  "withRetry_default fn = withRetry fn MAX_RETRIES INITIAL_BACKOFF 0"

text \<open>The number of invocations in a run, and the delays slept, in order.\<close>

fun attempts :: "event list \<Rightarrow> nat" where
  "attempts [] = 0"
| "attempts (Invoke # evs) = Suc (attempts evs)"
| "attempts (Sleep d # evs) = attempts evs"


text \<open>
  The events of \<open>k\<close> failed attempts that are each retried: \<open>k\<close> times an invocation
  followed by a sleep of the current delay, which doubles.
\<close>

fun backoff_events :: "int \<Rightarrow> nat \<Rightarrow> event list" where
  "backoff_events delay 0 = []"
| "backoff_events delay (Suc k) = Invoke # Sleep delay # backoff_events (delay * 2) k"

section \<open>The audio decoder (App.tsx)\<close>

type_synonym byte = "8 word"

text \<open>What the platform throws inside the decoder.\<close>

datatype dom_exception = RangeError | NotSupportedError

text \<open>
  A JavaScript number as the decoder meets it: a finite value, or \<^verbatim>\<open>NaN\<close>, which
  is what dividing \<^verbatim>\<open>undefined\<close> gives.
\<close>

datatype number = NaN | Finite rat

text \<open>
  \<^verbatim>\<open>new Int16Array(data.buffer)\<close>. The array \<^verbatim>\<open>data\<close> comes from
  \<^verbatim>\<open>decodeBase64\<close>, which allocates it, so its buffer holds exactly its bytes. The
  constructor throws a RangeError when the byte length is not a multiple of the element
  size 2. Element \<open>j\<close> is made of bytes \<open>2 * j\<close> (low) and \<open>2 * j + 1\<close> (high):
  the byte order of the platform, little-endian.
\<close>

fun int16_elements :: "byte list \<Rightarrow> 16 word list" where
  "int16_elements (lo # hi # rest) = word_cat hi lo # int16_elements rest"
| "int16_elements _ = []"

definition Int16Array :: "byte list \<Rightarrow> dom_exception + 16 word list" where
  "Int16Array buffer =
     (if length buffer mod 2 \<noteq> 0 then Inl RangeError else Inr (int16_elements buffer))"

text \<open>\<^verbatim>\<open>dataInt16[j]\<close>: reading past the end of a typed array gives \<^verbatim>\<open>undefined\<close>.\<close>

definition typed_get :: "'a list \<Rightarrow> nat \<Rightarrow> 'a option" where
  "typed_get xs j = (if j < length xs then Some (xs ! j) else None)"

text \<open>\<^verbatim>\<open>channelData[i] = v\<close>: writing past the end of a typed array does nothing.\<close>

definition typed_set :: "'a list \<Rightarrow> nat \<Rightarrow> 'a \<Rightarrow> 'a list" where
  "typed_set xs i v = (if i < length xs then xs[i := v] else xs)"

text \<open>
  \<^verbatim>\<open>dataInt16[j] / 32768.0\<close>, stored into a \<^verbatim>\<open>Float32Array\<close>. The element is read
  as a signed 16-bit integer; its quotient by \<open>2 ^ 15\<close> has at most 16 significant
  bits, so neither the division nor the store as a 32-bit float rounds.
\<close>

definition over_32768 :: "16 word option \<Rightarrow> number" where
  "over_32768 x = (case x of None \<Rightarrow> NaN | Some w \<Rightarrow> Finite (of_int (sint w) / 32768))"

text \<open>
  An \<^verbatim>\<open>AudioBuffer\<close>: its sample rate and one list of samples per channel, all of
  the same length.
\<close>

record AudioBuffer =
  sampleRate :: nat
  channelData :: "number list list"

definition numberOfChannels :: "AudioBuffer \<Rightarrow> nat" where
  "numberOfChannels buffer = length (channelData buffer)"

text \<open>The \<^verbatim>\<open>length\<close> attribute: the number of sample frames.\<close>

definition length_buffer :: "AudioBuffer \<Rightarrow> nat" where
  "length_buffer buffer = (case channelData buffer of [] \<Rightarrow> 0 | c # _ \<Rightarrow> length c)"

text \<open>
  The \<^verbatim>\<open>AudioContext\<close>, as far as \<^verbatim>\<open>createBuffer\<close> depends on it: the channel
  counts and sample rates this implementation supports. (The Web Audio API requires at
  least 32 channels and the rates from 8000 to 96000.)
\<close>

record AudioContext =
  maxChannels :: nat
  minSampleRate :: nat
  maxSampleRate :: nat

text \<open>
  \<^verbatim>\<open>ctx.createBuffer(numberOfChannels, length, sampleRate)\<close>: a NotSupportedError when
  an argument is zero or outside its nominal range, else a buffer of silence.
\<close>

definition createBuffer :: "AudioContext \<Rightarrow> nat \<Rightarrow> nat \<Rightarrow> nat \<Rightarrow> dom_exception + AudioBuffer" where
  "createBuffer ctx channels frames rate =
     (if channels = 0 \<or> maxChannels ctx < channels \<or> frames = 0
         \<or> rate < minSampleRate ctx \<or> maxSampleRate ctx < rate
      then Inl NotSupportedError
      else Inr \<lparr>sampleRate = rate, channelData = replicate channels (replicate frames (Finite 0))\<rparr>)"

text \<open>
  The conversion of a non-negative number to the \<^verbatim>\<open>unsigned long\<close> that
  \<^verbatim>\<open>createBuffer\<close> takes for its length: the fraction is dropped and the integer
  reduced modulo \<open>2 ^ 32\<close>.
\<close>

definition to_unsigned_long :: "rat \<Rightarrow> nat" where
  "to_unsigned_long q = nat (\<lfloor>q\<rfloor> mod 2 ^ 32)"

text \<open>
  The inner loop,
  \<^verbatim>\<open>for (let i = 0; i < frameCount; i++) channelData[i] = dataInt16[i * numChannels + channel] / 32768.0\<close>,
  entered at \<open>i\<close>. \<open>frameCount\<close> is the quotient \<^verbatim>\<open>dataInt16.length / numChannels\<close>
  and need not be whole.
\<close>

function fill_channel :: "16 word list \<Rightarrow> nat \<Rightarrow> rat \<Rightarrow> nat \<Rightarrow> number list \<Rightarrow> nat \<Rightarrow> number list" where
  "fill_channel dataInt16 numChannels frameCount channel cd i =
     (if of_nat i < frameCount
      then fill_channel dataInt16 numChannels frameCount channel
             (typed_set cd i (over_32768 (typed_get dataInt16 (i * numChannels + channel)))) (Suc i)
      else cd)"
  by pat_completeness auto
termination
  by (relation "measure (\<lambda>(dataInt16, numChannels, frameCount, channel, cd, i). nat \<lceil>frameCount\<rceil> - i)")
    (auto simp: zless_nat_eq_int_zless less_ceiling_iff intro!: diff_less_mono2)

declare fill_channel.simps [simp del]

text \<open>
  The outer loop, \<^verbatim>\<open>for (let channel = 0; channel < numChannels; channel++)\<close>, entered
  at \<open>channel\<close>: it fills the samples of each channel of the buffer in place.
\<close>

function fill_buffer :: "16 word list \<Rightarrow> nat \<Rightarrow> rat \<Rightarrow> number list list \<Rightarrow> nat \<Rightarrow> number list list" where
  "fill_buffer dataInt16 numChannels frameCount cds channel =
     (if channel < numChannels
      then fill_buffer dataInt16 numChannels frameCount
             (cds[channel := fill_channel dataInt16 numChannels frameCount channel (cds ! channel) 0])
             (Suc channel)
      else cds)"
  by pat_completeness auto
termination
  by (relation "measure (\<lambda>(dataInt16, numChannels, frameCount, cds, channel). numChannels - channel)") auto

declare fill_buffer.simps [simp del]

text \<open>
  \<^verbatim>\<open>decodeAudioData(data, ctx, sampleRate, numChannels)\<close>. With no channel the quotient
  \<^verbatim>\<open>frameCount\<close> is \<^verbatim>\<open>Infinity\<close> or \<^verbatim>\<open>NaN\<close> and \<^verbatim>\<open>createBuffer\<close> refuses the
  channel count whatever the length, so that case is the NotSupportedError at once.
  The buffer that \<^verbatim>\<open>createBuffer\<close> returns has \<open>numChannels\<close> channels, so every
  \<^verbatim>\<open>getChannelData(channel)\<close> of the loop finds its channel.
\<close>

definition decodeAudioData :: "byte list \<Rightarrow> AudioContext \<Rightarrow> nat \<Rightarrow> nat \<Rightarrow> dom_exception + AudioBuffer" where
  "decodeAudioData data ctx rate numChannels =
     (case Int16Array data of
        Inl e \<Rightarrow> Inl e
      | Inr dataInt16 \<Rightarrow>
          if numChannels = 0 then Inl NotSupportedError
          else
            let frameCount = of_nat (length dataInt16) / of_nat numChannels in
            (case createBuffer ctx numChannels (to_unsigned_long frameCount) rate of
               Inl e \<Rightarrow> Inl e
             | Inr buffer \<Rightarrow>
                 Inr (buffer\<lparr>channelData :=
                        fill_buffer dataInt16 numChannels frameCount (channelData buffer) 0\<rparr>)))"

text \<open>The signed 16-bit integer number \<open>j\<close> of a byte buffer, little-endian.\<close>

definition raw_int16 :: "byte list \<Rightarrow> nat \<Rightarrow> int" where
  "raw_int16 data j = sint (word_cat (data ! (2 * j + 1)) (data ! (2 * j)) :: 16 word)"

section \<open>The model service's responses\<close>

text \<open>
  A response of \<^verbatim>\<open>generateContent\<close>, as far as the services read it. Every field may
  be absent. \<^verbatim>\<open>response.text\<close> is the SDK's accessor for the text of the answer.
\<close>

record inline_data =
  mimeType :: "string option"
  data :: "string option"

record part =
  part_text :: "string option"
  inlineData :: "inline_data option"

record content =
  parts :: "part list option"

record web_citation =
  title :: "string option"
  uri :: "string option"

record grounding_chunk =
  web :: "web_citation option"

record grounding_metadata =
  groundingChunks :: "grounding_chunk list option"

record candidate =
  candidate_content :: "content option"
  groundingMetadata :: "grounding_metadata option"

record response =
  response_text :: "string option"
  candidates :: "candidate list option"

text \<open>\<^verbatim>\<open>response.candidates?.[0]\<close>: absent without candidates or with none of them.\<close>

definition first_candidate :: "response \<Rightarrow> candidate option" where
  "first_candidate r = (case candidates r of None \<Rightarrow> None | Some [] \<Rightarrow> None | Some (c # _) \<Rightarrow> Some c)"

section \<open>What the JavaScript engine supplies\<close>

text \<open>
  \<^verbatim>\<open>JSON.parse\<close>, which returns a value or throws a SyntaxError, and the TypeError
  the engine throws when a property of a value cannot be set or read; the wording of
  its message is the engine's.
\<close>

record engine =
  JSON_parse :: "string \<Rightarrow> js_error + jsval"
  cannot_set :: "jsval \<Rightarrow> string \<Rightarrow> js_error"
  cannot_read :: "jsval \<Rightarrow> string \<Rightarrow> js_error"

text \<open>An own property set on an object: replaced in place, or added at the end.\<close>

fun set_own :: "(string \<times> jsval) list \<Rightarrow> string \<Rightarrow> jsval \<Rightarrow> (string \<times> jsval) list" where
  "set_own [] k v = [(k, v)]"
| "set_own ((k', v') # ps) k v = (if k' = k then (k, v) # ps else (k', v') # set_own ps k v)"

text \<open>
  \<^verbatim>\<open>target.key = v\<close> in module code, which is strict: objects and arrays take the
  property; \<^verbatim>\<open>null\<close>, \<^verbatim>\<open>undefined\<close> and the primitive values throw a TypeError.
\<close>

fun js_set :: "engine \<Rightarrow> jsval \<Rightarrow> string \<Rightarrow> jsval \<Rightarrow> js_error + jsval" where
  "js_set eng (Obj ps) k v = Inr (Obj (set_own ps k v))"
| "js_set eng (Arr xs ps) k v = Inr (Arr xs (set_own ps k v))"
| "js_set eng target k v = Inl (cannot_set eng target k)"

text \<open>
  \<^verbatim>\<open>target.key\<close> for a key that names no built-in property: the own property if
  there is one, else \<^verbatim>\<open>undefined\<close>; on \<^verbatim>\<open>null\<close> and \<^verbatim>\<open>undefined\<close> a TypeError.
\<close>

fun js_get :: "engine \<Rightarrow> jsval \<Rightarrow> string \<Rightarrow> js_error + jsval" where
  "js_get eng (Obj ps) k = Inr (case map_of ps k of None \<Rightarrow> Undefined | Some v \<Rightarrow> v)"
| "js_get eng (Arr xs ps) k = Inr (case map_of ps k of None \<Rightarrow> Undefined | Some v \<Rightarrow> v)"
| "js_get eng Undefined k = Inl (cannot_read eng Undefined k)"
| "js_get eng Null k = Inl (cannot_read eng Null k)"
| "js_get eng target k = Inr Undefined"

section \<open>The artifact analyzer (services/geminiService.ts)\<close>

text \<open>
  \<^verbatim>\<open>{ title: chunk.web.title || 'Museum Database Entry', uri: chunk.web.uri }\<close>: an
  absent title and the empty title are both falsy.
\<close>

definition source_entry :: "web_citation \<Rightarrow> jsval" where
  "source_entry w =
     Obj [(''title'', Str (case title w of
                            None \<Rightarrow> ''Museum Database Entry''
                          | Some t \<Rightarrow> if t = [] then ''Museum Database Entry'' else t)),
          (''uri'', case uri w of None \<Rightarrow> Undefined | Some u \<Rightarrow> Str u)]"

text \<open>The \<^verbatim>\<open>forEach\<close> over the chunks: each chunk with \<^verbatim>\<open>web\<close> pushes one entry.\<close>

fun push_sources :: "grounding_chunk list \<Rightarrow> jsval list \<Rightarrow> jsval list" where
  "push_sources [] sources = sources"
| "push_sources (chunk # chunks) sources =
     (case web chunk of
        Some w \<Rightarrow> push_sources chunks (sources @ [source_entry w])
      | None \<Rightarrow> push_sources chunks sources)"

text \<open>\<^verbatim>\<open>response.candidates?.[0]?.groundingMetadata?.groundingChunks\<close>\<close>

definition grounding_chunks_of :: "response \<Rightarrow> grounding_chunk list option" where
  "grounding_chunks_of r =
     (case first_candidate r of
        None \<Rightarrow> None
      | Some c \<Rightarrow> (case groundingMetadata c of None \<Rightarrow> None | Some g \<Rightarrow> groundingChunks g))"

definition collect_sources :: "response \<Rightarrow> jsval list" where
  "collect_sources r =
     (case grounding_chunks_of r of None \<Rightarrow> [] | Some chunks \<Rightarrow> push_sources chunks [])"

text \<open>
  The body of the retried operation once the service has answered with \<open>r\<close>:
  \<^verbatim>\<open>const text = response.text || "{}"\<close> (an absent and an empty text are both
  falsy), \<^verbatim>\<open>JSON.parse(text) as ArtifactAnalysis\<close> (a type assertion, which runs
  nothing), the sources, \<^verbatim>\<open>analysis.sources = sources\<close>.
\<close>

definition analysis_of_response :: "engine \<Rightarrow> response \<Rightarrow> js_error + jsval" where
  "analysis_of_response eng r =
     (let text = (case response_text r of None \<Rightarrow> ''{}'' | Some t \<Rightarrow> if t = [] then ''{}'' else t)
      in case JSON_parse eng text of
           Inl e \<Rightarrow> Inl e
         | Inr analysis \<Rightarrow> js_set eng analysis ''sources'' (Arr (collect_sources r) []))"

text \<open>
  The \<^verbatim>\<open>required\<close> list of the response schema sent with the request. The service is
  asked to follow it; nothing in the analyzer checks it.
\<close>

definition required_fields :: "string list" where
  "required_fields = [''identification'', ''damageAnalysis'', ''pastReconstruction'',
     ''modernRestoration'', ''timeline'', ''confidenceScore'', ''confidenceExplanation'',
     ''curatorNarrative'']"

text \<open>
  \<^verbatim>\<open>analyzeArtifact\<close>: the operation, retried under the defaults. The outcome of each
  request to the service (a rejection or a response) is the environment's.
\<close>

definition analyzeArtifact :: "engine \<Rightarrow> response operation \<Rightarrow> (js_error + jsval) \<times> event list" where
  "analyzeArtifact eng api =
     withRetry_default
       (\<lambda>n. case api n of Inl e \<Rightarrow> Inl e | Inr r \<Rightarrow> analysis_of_response eng r)"

section \<open>The image synthesizer (services/geminiService.ts)\<close>

text \<open>A template literal prints an absent value as \<^verbatim>\<open>undefined\<close>.\<close>

definition template_string :: "string option \<Rightarrow> string" where
  "template_string s = (case s of None \<Rightarrow> ''undefined'' | Some t \<Rightarrow> t)"

text \<open>\<^verbatim>\<open>response.candidates?.[0]?.content?.parts || []\<close>\<close>

definition content_parts :: "response \<Rightarrow> part list" where
  "content_parts r =
     (case first_candidate r of
        None \<Rightarrow> []
      | Some c \<Rightarrow>
          (case candidate_content c of
             None \<Rightarrow> []
           | Some ct \<Rightarrow> (case parts ct of None \<Rightarrow> [] | Some ps \<Rightarrow> ps)))"

definition synthesis_failure :: js_error where
  "synthesis_failure = new_Error ''Visual synthesis failed. The fragment might be too complex.''"

text \<open>
  The loop over the parts, with its \<^verbatim>\<open>return\<close> at the first part that has
  \<^verbatim>\<open>inlineData\<close>, and the \<^verbatim>\<open>throw\<close> after it.
\<close>

fun image_of_parts :: "part list \<Rightarrow> js_error + string" where
  "image_of_parts [] = Inl synthesis_failure"
| "image_of_parts (p # ps) =
     (case inlineData p of
        Some blob \<Rightarrow> Inr (''data:image/png;base64,'' @ template_string (data blob))
      | None \<Rightarrow> image_of_parts ps)"

definition image_of_response :: "response \<Rightarrow> js_error + string" where
  "image_of_response r = image_of_parts (content_parts r)"

definition generateImage :: "response operation \<Rightarrow> (js_error + string) \<times> event list" where
  "generateImage api =
     withRetry_default
       (\<lambda>n. case api n of Inl e \<Rightarrow> Inl e | Inr r \<Rightarrow> image_of_response r)"

section \<open>The session and the upload handler (App.tsx)\<close>

datatype AppStatus = S_idle | S_analyzing | S_generating | S_complete | S_error

text \<open>
  \<^verbatim>\<open>ReconstructionData\<close>. A field that is \<^verbatim>\<open>null\<close>, or for \<^verbatim>\<open>audioBlob\<close> also
  absent, is \<open>None\<close>.
\<close>

record ReconstructionData =
  analysis :: "jsval option"
  pastImage :: "string option"
  presentImage :: "string option"
  originalImage :: "string option"
  audioBlob :: "string option"

text \<open>The state variables of the component that the handler reads or sets.\<close>

record app =
  app_status :: AppStatus
  app_hasKey :: bool
  app_data :: ReconstructionData
  app_error :: "string option"

text \<open>\<^verbatim>\<open>toLowerCase\<close>, on the letters A to Z.\<close>

definition toLowerCase :: "string \<Rightarrow> string" where
  "toLowerCase s =
     map (\<lambda>c. let n = of_char c :: nat in if 65 \<le> n \<and> n \<le> 90 then char_of (n + 32) else c) s"

text \<open>
  The \<^verbatim>\<open>catch\<close> block of the handler: it picks the message shown to the user from the
  error's message, asks for a new key when access was refused, and sets the status to
  error. It does not touch the data.
\<close>

definition catch_failure :: "js_error \<Rightarrow> app \<Rightarrow> app" where
  "catch_failure err s =
     (let msg = toLowerCase (case message err of None \<Rightarrow> [] | Some m \<Rightarrow> m);
          s' = (if str_includes msg ''permission'' \<or> str_includes msg ''403''
                   \<or> str_includes msg ''not found''
                then s\<lparr>app_error := Some ''API Access Refused. Please select a valid paid key.'',
                       app_hasKey := False\<rparr>
                else if str_includes msg ''500'' \<or> str_includes msg ''internal''
                then s\<lparr>app_error := Some ''The AI model encountered a temporary hiccup. Please try again.''\<rparr>
                else s\<lparr>app_error := Some
                  (case message err of
                     None \<Rightarrow> ''Forensic analysis failed. The image might be too blurry or complex.''
                   | Some m \<Rightarrow>
                       if m = [] then ''Forensic analysis failed. The image might be too blurry or complex.''
                       else m)\<rparr>)
      in s'\<lparr>app_status := S_error\<rparr>)"

text \<open>
  A promise that has been launched: the instant at which it settles and its outcome.
  The three requests of the generation stage run concurrently, so the order in which
  they settle is the environment's.
\<close>

type_synonym 'a settled = "nat \<times> (js_error + 'a)"

text \<open>The rejection that comes first in time; of two at the same instant, the first listed.\<close>

fun first_rejection :: "'a settled list \<Rightarrow> (nat \<times> js_error) option" where
  "first_rejection [] = None"
| "first_rejection ((t, Inr v) # ps) = first_rejection ps"
| "first_rejection ((t, Inl e) # ps) =
     (case first_rejection ps of
        None \<Rightarrow> Some (t, e)
      | Some (t', e') \<Rightarrow> if t' < t then Some (t', e') else Some (t, e))"

text \<open>
  \<^verbatim>\<open>Promise.all\<close>: rejected with the first rejection among its promises, else
  fulfilled with all their values in order.
\<close>

definition Promise_all :: "'a settled list \<Rightarrow> js_error + 'a list" where
  "Promise_all ps =
     (case first_rejection ps of
        Some (t, e) \<Rightarrow> Inl e
      | None \<Rightarrow> Inr (concat (map (\<lambda>(t, r). case r of Inl e \<Rightarrow> [] | Inr v \<Rightarrow> [v]) ps)))"

text \<open>
  The arguments of the three requests, evaluated in order:
  \<^verbatim>\<open>analysisResult.pastReconstruction.visualPrompt\<close>,
  \<^verbatim>\<open>analysisResult.modernRestoration.visualPrompt\<close>,
  \<^verbatim>\<open>analysisResult.curatorNarrative\<close>. Reading a property of an absent field throws.
\<close>

definition js_get2 :: "engine \<Rightarrow> jsval \<Rightarrow> string \<Rightarrow> string \<Rightarrow> js_error + jsval" where
  "js_get2 eng v k1 k2 = (case js_get eng v k1 of Inl e \<Rightarrow> Inl e | Inr x \<Rightarrow> js_get eng x k2)"

definition read_prompts :: "engine \<Rightarrow> jsval \<Rightarrow> js_error + jsval \<times> jsval \<times> jsval" where
  "read_prompts eng analysisResult =
     (case js_get2 eng analysisResult ''pastReconstruction'' ''visualPrompt'' of
        Inl e \<Rightarrow> Inl e
      | Inr past \<Rightarrow>
          (case js_get2 eng analysisResult ''modernRestoration'' ''visualPrompt'' of
             Inl e \<Rightarrow> Inl e
           | Inr present \<Rightarrow>
               (case js_get eng analysisResult ''curatorNarrative'' of
                  Inl e \<Rightarrow> Inl e
                | Inr narrative \<Rightarrow> Inr (past, present, narrative))))"

text \<open>
  The generation stage, from \<^verbatim>\<open>setStatus('generating')\<close> on, inside the
  \<^verbatim>\<open>try\<close>: the three requests (two images, one narration) are launched and awaited
  together; their outcomes are the environment's. Only when all three are fulfilled
  does \<^verbatim>\<open>setData\<close> store the results. The array that \<^verbatim>\<open>Promise.all\<close> fulfils
  with has one value per promise, so the destructuring finds its three values.
\<close>

definition generation_stage ::
  "engine \<Rightarrow> jsval \<Rightarrow> string settled \<Rightarrow> string settled \<Rightarrow> string settled \<Rightarrow> app \<Rightarrow> app" where
  "generation_stage eng analysisResult past present speech s =
     (let s1 = s\<lparr>app_status := S_generating\<rparr> in
      case read_prompts eng analysisResult of
        Inl err \<Rightarrow> catch_failure err s1
      | Inr prompts \<Rightarrow>
          (case Promise_all [past, present, speech] of
             Inl err \<Rightarrow> catch_failure err s1
           | Inr [pastUri, presentUri, audioBase64] \<Rightarrow>
               s1\<lparr>app_data := (app_data s1)\<lparr>pastImage := Some pastUri,
                                             presentImage := Some presentUri,
                                             audioBlob := Some audioBase64\<rparr>,
                  app_status := S_complete\<rparr>
           | Inr _ \<Rightarrow> s1))"

text \<open>
  \<^verbatim>\<open>reader.onload\<close>: the uploaded image is stored, the analyzer awaited, its result
  stored, and the generation stage run. \<open>analysed\<close> is what \<^verbatim>\<open>analyzeArtifact\<close>
  settles with.
\<close>

definition onload ::
  "engine \<Rightarrow> string \<Rightarrow> js_error + jsval \<Rightarrow> string settled \<Rightarrow> string settled \<Rightarrow> string settled
    \<Rightarrow> app \<Rightarrow> app" where
  "onload eng base64 analysed past present speech s =
     (let s0 = s\<lparr>app_data := (app_data s)\<lparr>originalImage := Some base64\<rparr>\<rparr> in
      case analysed of
        Inl err \<Rightarrow> catch_failure err s0
      | Inr analysisResult \<Rightarrow>
          generation_stage eng analysisResult past present speech
            (s0\<lparr>app_data := (app_data s0)\<lparr>analysis := Some analysisResult\<rparr>\<rparr>))"

text \<open>
  \<^verbatim>\<open>processFile\<close>: without a key it only opens the key selector, when the host page
  offers one (\<open>aistudio\<close>); with a key it sets the status to analyzing, clears the
  error and reads the file, whose data URI is \<open>base64\<close>.
\<close>

definition processFile ::
  "engine \<Rightarrow> bool \<Rightarrow> string \<Rightarrow> js_error + jsval \<Rightarrow> string settled \<Rightarrow> string settled \<Rightarrow> string settled
    \<Rightarrow> app \<Rightarrow> app" where
  "processFile eng aistudio base64 analysed past present speech s =
     (if \<not> app_hasKey s then (if aistudio then s\<lparr>app_hasKey := True\<rparr> else s)
      else onload eng base64 analysed past present speech
             (s\<lparr>app_status := S_analyzing, app_error := None\<rparr>))"

section \<open>Sample inputs\<close>

text \<open>
  An operation that answers 500 twice and then returns 42, under the defaults: three
  invocations, with 1000 ms and then 2000 ms slept between them.
\<close>

definition internal_error :: js_error where
  "internal_error = \<lparr>status = Str ''INTERNAL'', code = Num 500, message = Some ''500 Internal Server Error''\<rparr>"

definition fails_twice :: "nat operation" where
  "fails_twice n = (if n < 2 then Inl internal_error else Inr 42)"


text \<open>An operation that answers 500 at every invocation.\<close>

definition always_internal :: "nat operation" where
  "always_internal n = Inl internal_error"

text \<open>A 404 from the service, and an operation that meets it at once.\<close>

definition not_found_error :: js_error where
  "not_found_error = \<lparr>status = Num 404, code = Num 404, message = Some ''Requested entity was not found.''\<rparr>"

definition fails_not_found :: "nat operation" where
  "fails_not_found n = (if n = 0 then Inl not_found_error else Inr 42)"

text \<open>A 503 from the service: a 5xx status other than 500.\<close>

definition service_unavailable :: js_error where
  "service_unavailable = \<lparr>status = Num 503, code = Num 503, message = Some ''Service Unavailable''\<rparr>"


definition always_503 :: "nat operation" where
  "always_503 n = Inl service_unavailable"

text \<open>
  A 400 from the service, a client error, whose message happens to contain the
  characters 500; and an operation that meets it at every invocation.
\<close>

definition payload_too_large :: js_error where
  "payload_too_large = \<lparr>status = Num 400, code = Num 400,
     message = Some ''Request payload size exceeds the limit: 20971500 bytes.''\<rparr>"

definition always_too_large :: "nat operation" where
  "always_too_large n = Inl payload_too_large"

text \<open>
  An audio context with the support the Web Audio API requires of every implementation:
  up to 32 channels, sample rates from 8000 to 96000.
\<close>

definition baseline_ctx :: AudioContext where
  "baseline_ctx = \<lparr>maxChannels = 32, minSampleRate = 8000, maxSampleRate = 96000\<rparr>"

text \<open>
  Raw audio: the two 16-bit samples 16384 and -32768; then a third sample, 1, which with
  two channels is half a frame; then three bytes, a sample and a half.
\<close>

definition pcm_two_samples :: "byte list" where
  "pcm_two_samples = [0x00, 0x40, 0x00, 0x80]"

definition pcm_three_samples :: "byte list" where
  "pcm_three_samples = [0x00, 0x40, 0x00, 0x80, 0x01, 0x00]"

definition pcm_three_bytes :: "byte list" where
  "pcm_three_bytes = [0x00, 0x40, 0x00]"

text \<open>
  Responses of the image model: one whose second part carries a PNG, one whose only part
  carries a JPEG, one with text only.
\<close>

definition png_response :: response where
  "png_response =
     \<lparr>response_text = None,
      candidates = Some [\<lparr>candidate_content = Some \<lparr>parts = Some
          [\<lparr>part_text = Some ''Here is the reconstruction.'', inlineData = None\<rparr>,
           \<lparr>part_text = None, inlineData = Some \<lparr>mimeType = Some ''image/png'', data = Some ''QUJD''\<rparr>\<rparr>]\<rparr>,
        groundingMetadata = None\<rparr>]\<rparr>"

definition jpeg_response :: response where
  "jpeg_response =
     \<lparr>response_text = None,
      candidates = Some [\<lparr>candidate_content = Some \<lparr>parts = Some
          [\<lparr>part_text = None, inlineData = Some \<lparr>mimeType = Some ''image/jpeg'', data = Some ''QUJD''\<rparr>\<rparr>]\<rparr>,
        groundingMetadata = None\<rparr>]\<rparr>"

definition text_only_response :: response where
  "text_only_response =
     \<lparr>response_text = Some ''I cannot draw this.'',
      candidates = Some [\<lparr>candidate_content = Some \<lparr>parts = Some
          [\<lparr>part_text = Some ''I cannot draw this.'', inlineData = None\<rparr>]\<rparr>,
        groundingMetadata = None\<rparr>]\<rparr>"

text \<open>An operation whose every request is answered with the same response.\<close>

definition answers :: "response \<Rightarrow> response operation" where
  "answers r n = Inr r"

text \<open>
  An engine for the sample runs: its \<^verbatim>\<open>JSON.parse\<close> knows the empty object and one
  analysis text, and rejects every other text.
\<close>

definition sample_analysis_text :: string where
  \<open>sample_analysis_text = ''{"identification":{"type":"Priest-King bust","era":"2500-1900 BCE","civilization":"Indus Valley","region":"Mohenjo-daro","material":"Steatite","exactYearRange":"2200-1900 BCE"},"damageAnalysis":{"description":"Broken below the chest","missingSections":"Lower torso"},"pastReconstruction":{"description":"Seated male figure","visualPrompt":"A complete seated male figure","hotspots":[]},"modernRestoration":{"description":"Cleaned and mounted","visualPrompt":"The restored bust in a spotlight"},"timeline":[],"confidenceScore":82,"confidenceExplanation":"Trefoil robe","curatorNarrative":"This bust was found in 1925."}''\<close>

definition sample_analysis :: jsval where
  "sample_analysis =
     Obj [(''identification'', Obj [(''type'', Str ''Priest-King bust''), (''era'', Str ''2500-1900 BCE''),
            (''civilization'', Str ''Indus Valley''), (''region'', Str ''Mohenjo-daro''),
            (''material'', Str ''Steatite''), (''exactYearRange'', Str ''2200-1900 BCE'')]),
          (''damageAnalysis'', Obj [(''description'', Str ''Broken below the chest''),
            (''missingSections'', Str ''Lower torso'')]),
          (''pastReconstruction'', Obj [(''description'', Str ''Seated male figure''),
            (''visualPrompt'', Str ''A complete seated male figure''), (''hotspots'', Arr [] [])]),
          (''modernRestoration'', Obj [(''description'', Str ''Cleaned and mounted''),
            (''visualPrompt'', Str ''The restored bust in a spotlight'')]),
          (''timeline'', Arr [] []),
          (''confidenceScore'', Num 82),
          (''confidenceExplanation'', Str ''Trefoil robe''),
          (''curatorNarrative'', Str ''This bust was found in 1925.'')]"

definition sample_engine :: engine where
  "sample_engine =
     \<lparr>JSON_parse = (\<lambda>s. if s = ''{}'' then Inr (Obj [])
                         else if s = sample_analysis_text then Inr sample_analysis
                         else Inl \<lparr>status = Undefined, code = Undefined,
                                   message = Some ''Unexpected token in JSON''\<rparr>),
      cannot_set = (\<lambda>v k. \<lparr>status = Undefined, code = Undefined,
                             message = Some (''Cannot set property '' @ k)\<rparr>),
      cannot_read = (\<lambda>v k. \<lparr>status = Undefined, code = Undefined,
                              message = Some (''Cannot read property '' @ k)\<rparr>)\<rparr>"

text \<open>
  Responses of the analysis model: the sample analysis with two web citations, the
  second without a title; and a response with no text at all.
\<close>

definition grounded_response :: response where
  "grounded_response =
     \<lparr>response_text = Some sample_analysis_text,
      candidates = Some [\<lparr>candidate_content = None,
        groundingMetadata = Some \<lparr>groundingChunks = Some
          [\<lparr>web = Some \<lparr>title = Some ''Harappa.com'', uri = Some ''https://www.harappa.com/priest-king''\<rparr>\<rparr>,
           \<lparr>web = Some \<lparr>title = None, uri = Some ''https://museum.example/item/42''\<rparr>\<rparr>]\<rparr>\<rparr>]\<rparr>"

definition textless_response :: response where
  "textless_response = \<lparr>response_text = None, candidates = None\<rparr>"

text \<open>
  The session before an upload, as the component initialises it, and the outcomes of a
  generation stage in which both images arrive and the narration then fails.
\<close>

definition initial_app :: app where
  "initial_app =
     \<lparr>app_status = S_complete, app_hasKey = True,
      app_data = \<lparr>analysis = Some (Obj
          [(''identification'', Obj [(''civilization'', Str ''Debug''), (''type'', Str ''Test''),
             (''era'', Str ''Now''), (''region'', Str ''Local''), (''material'', Str ''Bits''),
             (''exactYearRange'', Str ''2024'')]),
           (''pastReconstruction'', Obj [(''description'', Str ''Debug Mode''),
             (''visualPrompt'', Str ''''), (''hotspots'', Arr [] [])]),
           (''modernRestoration'', Obj [(''description'', Str ''''), (''visualPrompt'', Str '''')]),
           (''timeline'', Arr [] []),
           (''confidenceScore'', Num 100),
           (''confidenceExplanation'', Str ''Debug''),
           (''assumptions'', Str ''''),
           (''curatorNarrative'', Str ''Debug''),
           (''damageAnalysis'', Obj [(''description'', Str ''''), (''missingSections'', Str '''')]),
           (''sources'', Arr [] [])]),
        pastImage = Some ''https://placehold.co/600x600/121212/FFF.png?text=Reconstruction'',
        presentImage = None,
        originalImage = Some ''https://placehold.co/600x600/343434/FFF.png?text=Original'',
        audioBlob = None\<rparr>,
      app_error = None\<rparr>"

definition past_arrives :: "string settled" where
  "past_arrives = (1, Inr ''data:image/png;base64,QUJD'')"

definition present_arrives :: "string settled" where
  "present_arrives = (2, Inr ''data:image/png;base64,REVG'')"

definition narration_fails :: "string settled" where
  "narration_fails = (3, Inl (new_Error ''Audio synthesis failed.''))"

section \<open>Retry: the properties\<close>

lemma attempts_append: "attempts (xs @ ys) = attempts xs + attempts ys"
  by (induction xs rule: attempts.induct) auto


lemma attempts_backoff_events: "attempts (backoff_events delay k) = k"
  by (induction k arbitrary: delay) auto


text \<open>
  \<open>k\<close> transient failures with retries left are skipped over: the wrapper behaves as
  the wrapper entered \<open>k\<close> invocations later, with \<open>k\<close> retries fewer and the delay
  doubled \<open>k\<close> times.
\<close>

lemma withRetry_skip:
  assumes "\<And>i. i < k \<Longrightarrow> \<exists>e. fn (n + i) = Inl e \<and> isTransient e"
    and "int k \<le> retries"
  shows "withRetry fn retries delay n =
    (case withRetry fn (retries - int k) (delay * 2 ^ k) (n + k) of
       (r, evs) \<Rightarrow> (r, backoff_events delay k @ evs))"
  using assms
proof (induction k arbitrary: retries delay n)
  case 0
  show ?case by simp
next
  case (Suc k)
  from Suc.prems(1) [of 0] obtain e where e: "fn n = Inl e" "isTransient e"
    by auto
  have later: "\<And>i. i < k \<Longrightarrow> \<exists>e. fn (Suc n + i) = Inl e \<and> isTransient e"
    using Suc.prems(1) [of "Suc _"] by simp
  from Suc.prems(2) have pos: "retries > 0" and le: "int k \<le> retries - 1"
    by simp_all
  have "withRetry fn retries delay n =
      (case withRetry fn (retries - 1) (delay * 2) (Suc n) of
         (r, evs) \<Rightarrow> (r, Invoke # Sleep delay # evs))"
    using e pos by (subst withRetry.simps) simp
  also have "withRetry fn (retries - 1) (delay * 2) (Suc n) =
      (case withRetry fn (retries - 1 - int k) (delay * 2 * 2 ^ k) (Suc n + k) of
         (r, evs) \<Rightarrow> (r, backoff_events (delay * 2) k @ evs))"
    by (rule Suc.IH [OF later le])
  finally show ?case
    by (simp add: algebra_simps split: prod.splits)
qed

lemma withRetry_success: "fn n = Inr v \<Longrightarrow> withRetry fn retries delay n = (Inr v, [Invoke])"
  by (subst withRetry.simps) simp

lemma withRetry_give_up:
  "fn n = Inl e \<Longrightarrow> \<not> isTransient e \<or> retries \<le> 0 \<Longrightarrow> withRetry fn retries delay n = (Inl e, [Invoke])"
  by (subst withRetry.simps) auto

lemma str_includes_sublist: "str_includes s needle \<longleftrightarrow> sublist needle s"
  by (induction s) (simp_all add: sublist_Cons_right)

lemma str_includes_iff: "str_includes s needle \<longleftrightarrow> (\<exists>pre suf. s = pre @ needle @ suf)"
  by (simp add: str_includes_sublist sublist_def)

lemma retry_then_success:
  assumes "\<forall>i<k. \<exists>e. fn i = Inl e \<and> isTransient e"
    and "fn k = Inr v"
    and "int k \<le> retries"
  shows "withRetry fn retries delay 0 = (Inr v, backoff_events delay k @ [Invoke])"
proof -
  have "withRetry fn retries delay 0 =
      (case withRetry fn (retries - int k) (delay * 2 ^ k) (0 + k) of
         (r, evs) \<Rightarrow> (r, backoff_events delay k @ evs))"
    using assms(1,3) by (intro withRetry_skip) simp_all
  moreover have "withRetry fn (retries - int k) (delay * 2 ^ k) (0 + k) = (Inr v, [Invoke])"
    using assms(2) by (simp add: withRetry_success)
  ultimately show ?thesis by simp
qed

lemma retry_then_give_up:
  assumes "\<forall>i<k. \<exists>e. fn i = Inl e \<and> isTransient e"
    and "fn k = Inl e"
    and "int k \<le> retries"
    and "\<not> isTransient e \<or> retries = int k"
  shows "withRetry fn retries delay 0 = (Inl e, backoff_events delay k @ [Invoke])"
proof -
  have "withRetry fn retries delay 0 =
      (case withRetry fn (retries - int k) (delay * 2 ^ k) (0 + k) of
         (r, evs) \<Rightarrow> (r, backoff_events delay k @ evs))"
    using assms(1,3) by (intro withRetry_skip) simp_all
  moreover have "withRetry fn (retries - int k) (delay * 2 ^ k) (0 + k) = (Inl e, [Invoke])"
    using assms(2,4) by (intro withRetry_give_up) auto
  ultimately show ?thesis by simp
qed


lemma attempts_withRetry_pos: "1 \<le> attempts (snd (withRetry fn retries delay n))"
  by (subst withRetry.simps) (simp split: sum.splits prod.splits)




text \<open>
  Claim C2, as stated, fails when transient means what the specification says, a
  server-side 5xx failure. An operation that always fails with a 503 is raised after
  one attempt, not after the three of the default retry count; and an operation that
  always fails with a 400, which is not a server-side failure, but whose message
  contains 500, is attempted three times, not once.
\<close>

theorem withRetry_503_and_400_counterexample:
  "always_503 0 = Inl service_unavailable
    \<and> fst (withRetry_default always_503) = Inl service_unavailable
    \<and> attempts (snd (withRetry_default always_503)) = 1
    \<and> always_too_large 0 = Inl payload_too_large
    \<and> status payload_too_large = Num 400 \<and> code payload_too_large = Num 400
    \<and> fst (withRetry_default always_too_large) = Inl payload_too_large
    \<and> attempts (snd (withRetry_default always_too_large)) = 3"
proof -
  have "\<not> isTransient service_unavailable"
    by (simp add: isTransient_def service_unavailable_def)
  then have "withRetry always_503 2 1000 0 = (Inl service_unavailable, [Invoke])"
    by (intro withRetry_give_up) (simp_all add: always_503_def)
  then have a: "withRetry_default always_503 = (Inl service_unavailable, [Invoke])"
    by (simp add: withRetry_default_def MAX_RETRIES_def INITIAL_BACKOFF_def)
  have "isTransient payload_too_large"
    by (simp add: isTransient_def payload_too_large_def)
  then have "withRetry always_too_large 2 1000 0 =
      (Inl payload_too_large, backoff_events 1000 2 @ [Invoke])"
    by (intro retry_then_give_up) (simp_all add: always_too_large_def)
  then have b: "withRetry_default always_too_large =
      (Inl payload_too_large, backoff_events 1000 2 @ [Invoke])"
    by (simp add: withRetry_default_def MAX_RETRIES_def INITIAL_BACKOFF_def)
  have "attempts (backoff_events 1000 2 @ [Invoke]) = 3"
    by (simp add: attempts_append attempts_backoff_events)
  with a b show ?thesis
    by (simp add: always_503_def always_too_large_def payload_too_large_def)
qed

text \<open>
  Claim C2, amended. With transient meaning what the wrapper classifies as transient
  (status the string INTERNAL, or code the number 500, or a message that contains 500):
  when the operation fails with such an error at each of its first \<open>retries + 1\<close>
  invocations, the wrapper rejects after exactly \<open>retries + 1\<close> attempts, with the
  rejection of the last attempt; when the operation fails with an error that is not so
  classified, the wrapper rejects after exactly one attempt. In both cases the caller
  gets the operation's own error value.
\<close>

theorem withRetry_propagates_error:
  "(0 \<le> retries \<and> (\<forall>i\<le>nat retries. \<exists>e. fn i = Inl e \<and> isTransient e) \<longrightarrow>
      fst (withRetry fn retries delay 0) = fn (nat retries)
    \<and> attempts (snd (withRetry fn retries delay 0)) = nat retries + 1)
  \<and> (fn 0 = Inl e \<and> \<not> isTransient e \<longrightarrow>
      fst (withRetry fn retries delay 0) = Inl e
    \<and> attempts (snd (withRetry fn retries delay 0)) = 1)"
proof (intro conjI impI)
  assume h: "0 \<le> retries \<and> (\<forall>i\<le>nat retries. \<exists>e. fn i = Inl e \<and> isTransient e)"
  then obtain e' where last: "fn (nat retries) = Inl e'"
    by blast
  have "withRetry fn retries delay 0 = (Inl e', backoff_events delay (nat retries) @ [Invoke])"
    using h last by (intro retry_then_give_up) auto
  then show "fst (withRetry fn retries delay 0) = fn (nat retries)"
    and "attempts (snd (withRetry fn retries delay 0)) = nat retries + 1"
    using last by (simp_all add: attempts_append attempts_backoff_events)
next
  assume h: "fn 0 = Inl e \<and> \<not> isTransient e"
  then have "withRetry fn retries delay 0 = (Inl e, [Invoke])"
    by (intro withRetry_give_up) auto
  then show "fst (withRetry fn retries delay 0) = Inl e"
    and "attempts (snd (withRetry fn retries delay 0)) = 1"
    by simp_all
qed

theorem withRetry_propagates_error_witness:
  "always_internal 0 = Inl internal_error \<and> always_internal 1 = Inl internal_error
    \<and> always_internal 2 = Inl internal_error \<and> isTransient internal_error
    \<and> fst (withRetry always_internal 2 1000 0) = Inl internal_error
    \<and> attempts (snd (withRetry always_internal 2 1000 0)) = 3
    \<and> fails_not_found 0 = Inl not_found_error \<and> \<not> isTransient not_found_error
    \<and> fst (withRetry fails_not_found 2 1000 0) = Inl not_found_error
    \<and> attempts (snd (withRetry fails_not_found 2 1000 0)) = 1"
proof -
  have t: "isTransient internal_error"
    by (simp add: internal_error_def isTransient_def)
  then have h1: "\<forall>i\<le>nat 2. \<exists>e. always_internal i = Inl e \<and> isTransient e"
    by (simp add: always_internal_def)
  have h2: "fails_not_found 0 = Inl not_found_error \<and> \<not> isTransient not_found_error"
    by (simp add: fails_not_found_def not_found_error_def isTransient_def)
  from withRetry_propagates_error [of 2 always_internal 1000 internal_error]
    withRetry_propagates_error [of 2 fails_not_found 1000 not_found_error] h1 h2 t
  show ?thesis by (simp add: always_internal_def)
qed

text \<open>
  Claim C3, as stated, fails: an error whose status and code are 503 and whose message
  does not contain 500 is not classified as transient.
\<close>

theorem isTransient_503_counterexample: "\<not> isTransient service_unavailable"
  by (simp add: isTransient_def service_unavailable_def)

text \<open>
  Claim C3, amended. An error is classified as transient exactly when its status is
  the string INTERNAL, or its code is the number 500, or its message contains the
  characters 500; and the wrapper invokes the operation again after a first failure
  exactly when that error is so classified and the retry count is positive. Other 5xx
  values of status or code do not count.
\<close>

theorem isTransient_iff_500_or_INTERNAL:
  assumes "fn 0 = Inl e"
  shows "(isTransient e \<longleftrightarrow>
            status e = Str ''INTERNAL'' \<or> code e = Num 500
          \<or> (\<exists>m pre suf. message e = Some m \<and> m = pre @ ''500'' @ suf))
    \<and> (1 < attempts (snd (withRetry fn retries delay 0)) \<longleftrightarrow>
         (status e = Str ''INTERNAL'' \<or> code e = Num 500
          \<or> (\<exists>m pre suf. message e = Some m \<and> m = pre @ ''500'' @ suf)) \<and> 0 < retries)"
proof -
  have cls: "isTransient e \<longleftrightarrow>
            status e = Str ''INTERNAL'' \<or> code e = Num 500
          \<or> (\<exists>m pre suf. message e = Some m \<and> m = pre @ ''500'' @ suf)"
    by (cases "message e") (simp_all add: isTransient_def str_includes_iff)
  have again: "1 < attempts (snd (withRetry fn retries delay 0)) \<longleftrightarrow> isTransient e \<and> 0 < retries"
  proof (cases "isTransient e \<and> 0 < retries")
    case True
    have "1 \<le> attempts (snd (withRetry fn (retries - 1) (delay * 2) (Suc 0)))"
      by (rule attempts_withRetry_pos)
    moreover have "withRetry fn retries delay 0 =
        (case withRetry fn (retries - 1) (delay * 2) (Suc 0) of
           (r, evs) \<Rightarrow> (r, Invoke # Sleep delay # evs))"
      using assms True by (subst withRetry.simps) simp
    ultimately show ?thesis using True
      by (simp split: prod.splits)
  next
    case False
    then have "withRetry fn retries delay 0 = (Inl e, [Invoke])"
      using assms by (intro withRetry_give_up) auto
    with False show ?thesis by simp
  qed
  from cls again show ?thesis by blast
qed

theorem isTransient_iff_500_or_INTERNAL_witness:
  "fails_twice 0 = Inl internal_error \<and> isTransient internal_error
    \<and> 1 < attempts (snd (withRetry fails_twice 2 1000 0))"
proof -
  have h: "fails_twice 0 = Inl internal_error"
    by (simp add: fails_twice_def)
  from isTransient_iff_500_or_INTERNAL [where fn = fails_twice and e = internal_error
      and retries = 2 and delay = 1000] h
  show ?thesis by (simp add: internal_error_def)
qed

section \<open>Audio decoder: the properties\<close>

lemma length_int16_elements: "length (int16_elements xs) = length xs div 2"
  by (induction xs rule: int16_elements.induct) simp_all

lemma nth_int16_elements:
  "j < length xs div 2 \<Longrightarrow> int16_elements xs ! j = word_cat (xs ! (2 * j + 1)) (xs ! (2 * j))"
proof (induction xs arbitrary: j rule: int16_elements.induct)
  case (1 lo hi rest)
  then show ?case by (cases j) simp_all
qed simp_all

lemma length_typed_set: "length (typed_set xs i v) = length xs"
  by (simp add: typed_set_def)

lemma nth_typed_set:
  "j < length xs \<Longrightarrow> typed_set xs i v ! j = (if j = i then v else xs ! j)"
  by (simp add: typed_set_def)

lemma length_fill_channel: "length (fill_channel d C fc ch cd i) = length cd"
proof (induction d C fc ch cd i rule: fill_channel.induct)
  case (1 d C fc ch cd i)
  then show ?case
    by (subst fill_channel.simps) (simp add: length_typed_set)
qed

lemma nth_fill_channel:
  "j < length cd \<Longrightarrow>
   fill_channel d C fc ch cd i ! j =
     (if i \<le> j \<and> of_nat j < fc then over_32768 (typed_get d (j * C + ch)) else cd ! j)"
proof (induction d C fc ch cd i rule: fill_channel.induct)
  case (1 d C fc ch cd i)
  show ?case
  proof (cases "of_nat i < fc")
    case True
    have "fill_channel d C fc ch cd i ! j =
        fill_channel d C fc ch (typed_set cd i (over_32768 (typed_get d (i * C + ch)))) (Suc i) ! j"
      using True by (subst fill_channel.simps) simp
    also have "\<dots> = (if Suc i \<le> j \<and> of_nat j < fc then over_32768 (typed_get d (j * C + ch))
        else typed_set cd i (over_32768 (typed_get d (i * C + ch))) ! j)"
      using "1.prems" by (intro "1.IH" [OF True]) (simp add: length_typed_set)
    finally show ?thesis
      using "1.prems" True by (auto simp: nth_typed_set)
  next
    case False
    then have "\<not> (of_nat j < fc)" if "i \<le> j"
      using that by (meson le_less_trans not_less of_nat_le_iff)
    with False show ?thesis
      by (subst fill_channel.simps) auto
  qed
qed

lemma length_fill_buffer: "length (fill_buffer d C fc cds ch) = length cds"
proof (induction d C fc cds ch rule: fill_buffer.induct)
  case (1 d C fc cds ch)
  then show ?case
    by (subst fill_buffer.simps) simp
qed

lemma nth_fill_buffer:
  "c < length cds \<Longrightarrow>
   fill_buffer d C fc cds ch ! c =
     (if ch \<le> c \<and> c < C then fill_channel d C fc c (cds ! c) 0 else cds ! c)"
proof (induction d C fc cds ch rule: fill_buffer.induct)
  case (1 d C fc cds ch)
  show ?case
  proof (cases "ch < C")
    case True
    have "fill_buffer d C fc cds ch ! c =
        fill_buffer d C fc (cds[ch := fill_channel d C fc ch (cds ! ch) 0]) (Suc ch) ! c"
      using True by (subst fill_buffer.simps) simp
    also have "\<dots> = (if Suc ch \<le> c \<and> c < C
        then fill_channel d C fc c (cds[ch := fill_channel d C fc ch (cds ! ch) 0] ! c) 0
        else cds[ch := fill_channel d C fc ch (cds ! ch) 0] ! c)"
      using "1.prems" by (intro "1.IH" [OF True]) simp
    finally show ?thesis
      using "1.prems" True by (cases "c = ch") (auto simp: nth_list_update)
  next
    case False
    then show ?thesis
      by (subst fill_buffer.simps) auto
  qed
qed


lemma frame_in_range:
  fixes f L C c :: nat
  assumes "f < L div C" "c < C"
  shows "f * C + c < L"
proof -
  have "f * C + c < Suc f * C"
    using assms(2) by simp
  also have "Suc f * C \<le> (L div C) * C"
    using assms(1) by (intro mult_le_mono1) simp
  also have "\<dots> \<le> L"
    by simp
  finally show ?thesis .
qed

lemma frame_below_quotient:
  assumes "f < L div C" "0 < C"
  shows "(of_nat f :: rat) < of_nat L / of_nat C"
proof -
  have "f * C + 0 < L"
    using assms by (intro frame_in_range) simp_all
  then have "(of_nat (f * C) :: rat) < of_nat L"
    by (simp only: of_nat_less_iff add_0_right)
  then show ?thesis
    using assms(2) by (simp add: pos_less_divide_eq)
qed

lemma to_unsigned_long_quotient:
  "L div C < 2 ^ 32 \<Longrightarrow> to_unsigned_long (of_nat L / of_nat C) = L div C"
proof -
  assume "L div C < 2 ^ 32"
  then have "int (L div C) < 2 ^ 32"
    by (metis of_nat_less_iff of_nat_numeral of_nat_power)
  then show ?thesis
    by (simp add: to_unsigned_long_def floor_divide_of_nat_eq)
qed

lemma decodeAudioData_even:
  assumes even: "length buf mod 2 = 0"
    and C: "0 < C" "C \<le> maxChannels ctx"
    and rate: "minSampleRate ctx \<le> rate" "rate \<le> maxSampleRate ctx"
    and N: "N = (length buf div 2) div C" "0 < N" "N < 2 ^ 32"
  shows "\<exists>b. decodeAudioData buf ctx rate C = Inr b \<and> sampleRate b = rate
    \<and> length (channelData b) = C
    \<and> (\<forall>c<C. length (channelData b ! c) = N
         \<and> (\<forall>f<N. channelData b ! c ! f = Finite (of_int (raw_int16 buf (f * C + c)) / 32768)))"
proof -
  define d where "d = int16_elements buf"
  define fc :: rat where "fc = of_nat (length d) / of_nat C"
  define b where "b = \<lparr>sampleRate = rate,
     channelData = fill_buffer d C fc (replicate C (replicate N (Finite 0))) 0\<rparr>"
  have len: "length d = length buf div 2"
    by (simp add: d_def length_int16_elements)
  have ul: "to_unsigned_long fc = N"
    unfolding fc_def len using N by (simp add: to_unsigned_long_quotient)
  have "createBuffer ctx C N rate =
      Inr \<lparr>sampleRate = rate, channelData = replicate C (replicate N (Finite 0))\<rparr>"
    using C rate N(2) by (simp add: createBuffer_def)
  then have dec: "decodeAudioData buf ctx rate C = Inr b"
    using even C(1) ul
    by (simp add: decodeAudioData_def Int16Array_def b_def d_def [symmetric] fc_def [symmetric])
  have chan: "channelData b ! c = fill_channel d C fc c (replicate N (Finite 0)) 0" if "c < C" for c
    using that by (simp add: b_def nth_fill_buffer)
  have smp: "channelData b ! c ! f = Finite (of_int (raw_int16 buf (f * C + c)) / 32768)"
    if "c < C" "f < N" for c f
  proof -
    have inr: "f * C + c < length d"
      using that N(1) by (simp add: len frame_in_range)
    have "of_nat f < fc"
      using that(2) N(1) C(1) by (simp add: fc_def len frame_below_quotient)
    then have "channelData b ! c ! f = over_32768 (typed_get d (f * C + c))"
      using that by (simp add: chan nth_fill_channel)
    also have "\<dots> = Finite (of_int (sint (d ! (f * C + c))) / 32768)"
      using inr by (simp add: over_32768_def typed_get_def)
    also have "d ! (f * C + c) = word_cat (buf ! (2 * (f * C + c) + 1)) (buf ! (2 * (f * C + c)))"
      using inr unfolding d_def by (intro nth_int16_elements) (simp add: length_int16_elements)
    finally show ?thesis
      by (simp add: raw_int16_def)
  qed
  have "length (channelData b) = C"
    by (simp add: b_def length_fill_buffer)
  moreover have "length (channelData b ! c) = N" if "c < C" for c
    using that by (simp add: chan length_fill_channel)
  moreover have "sampleRate b = rate"
    by (simp add: b_def)
  ultimately show ?thesis
    using dec smp by blast
qed

text \<open>
  Claim C4, as stated, fails on the empty buffer: its length 0 is a multiple of
  2 bytes times the channel count, the frame count is 0, and \<^verbatim>\<open>createBuffer\<close>
  refuses a length of 0 with a NotSupportedError, so no buffer is produced.
\<close>

theorem decodeAudioData_empty_counterexample:
  "length ([] :: byte list) mod (2 * 1) = 0
    \<and> decodeAudioData [] baseline_ctx 24000 1 = Inl NotSupportedError"
  by (simp add: decodeAudioData_def Int16Array_def createBuffer_def to_unsigned_long_def
      baseline_ctx_def)

text \<open>
  Claim C4, amended. For every non-empty byte buffer whose length is an exact multiple
  of 2 bytes times the channel count, with fewer than \<open>2 ^ 32\<close> frames and a channel
  count and sample rate the audio context supports, the decoder reads the bytes as
  little-endian signed 16-bit integers and returns a planar buffer of that sample rate,
  with one channel per input channel and one frame per input frame, in which the
  sample of channel \<open>c\<close> at frame \<open>f\<close> is integer number \<open>f * channels + c\<close>
  divided by 32768. For mono input of 4 bytes the buffer has exactly 2 frames.
\<close>

theorem decodeAudioData_whole_frames:
  assumes "buf \<noteq> []" and "length buf = 2 * C * F" and "F < 2 ^ 32"
    and "C \<le> maxChannels ctx" and "minSampleRate ctx \<le> rate" and "rate \<le> maxSampleRate ctx"
  shows "\<exists>b. decodeAudioData buf ctx rate C = Inr b \<and> sampleRate b = rate
    \<and> numberOfChannels b = C \<and> length_buffer b = F
    \<and> (\<forall>c<C. length (channelData b ! c) = F
         \<and> (\<forall>f<F. channelData b ! c ! f = Finite (of_int (raw_int16 buf (f * C + c)) / 32768)))
    \<and> (C = 1 \<and> length buf = 4 \<longrightarrow> length_buffer b = 2)"
proof -
  from assms(1,2) have pos: "0 < C" "0 < F"
    by (cases "C = 0"; cases "F = 0"; simp)+
  have even: "length buf mod 2 = 0"
    using assms(2) by simp
  have F: "F = (length buf div 2) div C"
    using assms(2) pos by simp
  from decodeAudioData_even [OF even pos(1) assms(4,5,6) F pos(2) assms(3)]
  obtain b where b: "decodeAudioData buf ctx rate C = Inr b" "sampleRate b = rate"
    "length (channelData b) = C"
    "\<forall>c<C. length (channelData b ! c) = F
       \<and> (\<forall>f<F. channelData b ! c ! f = Finite (of_int (raw_int16 buf (f * C + c)) / 32768))"
    by blast
  from b(3,4) pos(1) have frames: "length_buffer b = F"
    by (cases "channelData b") (auto simp: length_buffer_def)
  have "length_buffer b = 2" if "C = 1 \<and> length buf = 4"
    using that assms(2) frames by auto
  with b frames show ?thesis
    by (auto simp: numberOfChannels_def)
qed

theorem decodeAudioData_whole_frames_witness:
  "pcm_two_samples \<noteq> [] \<and> length pcm_two_samples = 2 * 1 * 2
    \<and> (\<exists>b. decodeAudioData pcm_two_samples baseline_ctx 24000 1 = Inr b
          \<and> sampleRate b = 24000 \<and> numberOfChannels b = 1 \<and> length_buffer b = 2
          \<and> channelData b ! 0 ! 0 = Finite (1 / 2) \<and> channelData b ! 0 ! 1 = Finite (- 1))"
proof -
  have h: "pcm_two_samples \<noteq> []" "length pcm_two_samples = 2 * 1 * 2" "(2::nat) < 2 ^ 32"
    "1 \<le> maxChannels baseline_ctx" "minSampleRate baseline_ctx \<le> 24000"
    "24000 \<le> maxSampleRate baseline_ctx"
    by (simp_all add: pcm_two_samples_def baseline_ctx_def)
  have raw: "raw_int16 pcm_two_samples 0 = 16384" "raw_int16 pcm_two_samples 1 = - 32768"
    by (simp_all add: raw_int16_def pcm_two_samples_def word_cat_eq)
  from decodeAudioData_whole_frames [OF h]
  obtain b where b: "decodeAudioData pcm_two_samples baseline_ctx 24000 1 = Inr b"
    "sampleRate b = 24000" "numberOfChannels b = 1" "length_buffer b = 2"
    "\<forall>c<1. length (channelData b ! c) = 2
       \<and> (\<forall>f<2. channelData b ! c ! f = Finite (of_int (raw_int16 pcm_two_samples (f * 1 + c)) / 32768))"
    by blast
  from b(5) have "channelData b ! 0 ! 0 = Finite (of_int (raw_int16 pcm_two_samples 0) / 32768)"
    and "channelData b ! 0 ! 1 = Finite (of_int (raw_int16 pcm_two_samples 1) / 32768)"
    by simp_all
  with raw have "channelData b ! 0 ! 0 = Finite (1 / 2)" "channelData b ! 0 ! 1 = Finite (- 1)"
    by simp_all
  with b h show ?thesis by blast
qed

text \<open>
  Claim C5, as stated, fails on a buffer of odd length: for mono input of three bytes
  the claim has the decoder drop the odd byte and decode one frame, but the typed-array
  constructor rejects the buffer with a RangeError and nothing is decoded.
\<close>

theorem decodeAudioData_odd_counterexample:
  "length pcm_three_bytes mod (2 * 1) \<noteq> 0
    \<and> decodeAudioData pcm_three_bytes baseline_ctx 24000 1 = Inl RangeError"
  by (simp add: decodeAudioData_def Int16Array_def pcm_three_bytes_def)

text \<open>
  Claim C5, amended. For every byte buffer of even length that is not an exact multiple
  of 2 bytes times the channel count and holds at least one complete frame (fewer than
  \<open>2 ^ 32\<close> of them, channel count and sample rate supported by the audio context), the
  decoder raises nothing: it leaves out the final partial frame and decodes the complete
  frames before it. For every byte buffer of odd length the decoder raises the
  RangeError of the typed-array constructor.
\<close>

theorem decodeAudioData_partial_frame:
  "(length buf mod 2 \<noteq> 0 \<longrightarrow> decodeAudioData buf ctx rate C = Inl RangeError)
  \<and> (length buf mod 2 = 0 \<and> length buf mod (2 * C) \<noteq> 0
      \<and> 0 < length buf div (2 * C) \<and> length buf div (2 * C) < 2 ^ 32
      \<and> C \<le> maxChannels ctx \<and> minSampleRate ctx \<le> rate \<and> rate \<le> maxSampleRate ctx \<longrightarrow>
      (\<exists>b. decodeAudioData buf ctx rate C = Inr b \<and> sampleRate b = rate
        \<and> numberOfChannels b = C \<and> length_buffer b = length buf div (2 * C)
        \<and> (\<forall>c<C. length (channelData b ! c) = length buf div (2 * C)
             \<and> (\<forall>f<length buf div (2 * C).
                   channelData b ! c ! f = Finite (of_int (raw_int16 buf (f * C + c)) / 32768)))))"
proof (intro conjI impI)
  assume "length buf mod 2 \<noteq> 0"
  then show "decodeAudioData buf ctx rate C = Inl RangeError"
    by (simp add: decodeAudioData_def Int16Array_def)
next
  define N where "N = length buf div (2 * C)"
  assume h: "length buf mod 2 = 0 \<and> length buf mod (2 * C) \<noteq> 0
      \<and> 0 < length buf div (2 * C) \<and> length buf div (2 * C) < 2 ^ 32
      \<and> C \<le> maxChannels ctx \<and> minSampleRate ctx \<le> rate \<and> rate \<le> maxSampleRate ctx"
  then have N: "0 < N" "N < 2 ^ 32"
    by (simp_all add: N_def)
  then have C: "0 < C"
    by (cases "C = 0") (simp_all add: N_def)
  have quot: "N = (length buf div 2) div C"
    by (simp add: N_def div_mult2_eq)
  from h have even: "length buf mod 2 = 0" and ctx: "C \<le> maxChannels ctx"
    "minSampleRate ctx \<le> rate" "rate \<le> maxSampleRate ctx"
    by simp_all
  from decodeAudioData_even [OF even C ctx quot N]
  obtain b where b: "decodeAudioData buf ctx rate C = Inr b" "sampleRate b = rate"
    "length (channelData b) = C"
    "\<forall>c<C. length (channelData b ! c) = N
       \<and> (\<forall>f<N. channelData b ! c ! f = Finite (of_int (raw_int16 buf (f * C + c)) / 32768))"
    by blast
  from b(3,4) C have "length_buffer b = N"
    by (cases "channelData b") (auto simp: length_buffer_def)
  with b show "\<exists>b. decodeAudioData buf ctx rate C = Inr b \<and> sampleRate b = rate
        \<and> numberOfChannels b = C \<and> length_buffer b = length buf div (2 * C)
        \<and> (\<forall>c<C. length (channelData b ! c) = length buf div (2 * C)
             \<and> (\<forall>f<length buf div (2 * C).
                   channelData b ! c ! f = Finite (of_int (raw_int16 buf (f * C + c)) / 32768)))"
    unfolding N_def [symmetric] by (auto simp: numberOfChannels_def)
qed

theorem decodeAudioData_partial_frame_witness:
  "length pcm_three_samples mod 2 = 0 \<and> length pcm_three_samples mod (2 * 2) \<noteq> 0
    \<and> length pcm_three_samples div (2 * 2) = 1
    \<and> (\<exists>b. decodeAudioData pcm_three_samples baseline_ctx 24000 2 = Inr b
          \<and> numberOfChannels b = 2 \<and> length_buffer b = 1
          \<and> channelData b ! 0 ! 0 = Finite (1 / 2) \<and> channelData b ! 1 ! 0 = Finite (- 1))
    \<and> length pcm_three_bytes mod 2 \<noteq> 0
    \<and> decodeAudioData pcm_three_bytes baseline_ctx 24000 2 = Inl RangeError"
proof -
  have len: "length pcm_three_samples = 6" "length pcm_three_bytes = 3"
    by (simp_all add: pcm_three_samples_def pcm_three_bytes_def)
  have ctx: "2 \<le> maxChannels baseline_ctx" "minSampleRate baseline_ctx \<le> 24000"
    "24000 \<le> maxSampleRate baseline_ctx"
    by (simp_all add: baseline_ctx_def)
  have raw: "raw_int16 pcm_three_samples 0 = 16384" "raw_int16 pcm_three_samples 1 = - 32768"
    by (simp_all add: raw_int16_def pcm_three_samples_def word_cat_eq)
  from decodeAudioData_partial_frame [of pcm_three_samples baseline_ctx 24000 2] len ctx
  obtain b where b: "decodeAudioData pcm_three_samples baseline_ctx 24000 2 = Inr b"
    "numberOfChannels b = 2" "length_buffer b = 1"
    "\<forall>c<2. length (channelData b ! c) = 1
       \<and> (\<forall>f<1. channelData b ! c ! f = Finite (of_int (raw_int16 pcm_three_samples (f * 2 + c)) / 32768))"
    by auto
  from b(4) have "channelData b ! 0 ! 0 = Finite (of_int (raw_int16 pcm_three_samples 0) / 32768)"
    and "channelData b ! 1 ! 0 = Finite (of_int (raw_int16 pcm_three_samples 1) / 32768)"
    by simp_all
  with raw have "channelData b ! 0 ! 0 = Finite (1 / 2)" "channelData b ! 1 ! 0 = Finite (- 1)"
    by simp_all
  moreover from decodeAudioData_partial_frame [of pcm_three_bytes baseline_ctx 24000 2] len
  have "decodeAudioData pcm_three_bytes baseline_ctx 24000 2 = Inl RangeError"
    by simp
  ultimately show ?thesis
    using b len by auto
qed

section \<open>Image synthesizer: the properties\<close>

lemma synthesis_failure_not_transient: "\<not> isTransient synthesis_failure"
  by (simp add: isTransient_def synthesis_failure_def new_Error_def)

lemma image_of_parts_none:
  "\<forall>p\<in>set ps. inlineData p = None \<Longrightarrow> image_of_parts ps = Inl synthesis_failure"
  by (induction ps) simp_all

lemma image_of_parts_first:
  "\<forall>q\<in>set pre. inlineData q = None \<Longrightarrow> inlineData p = Some blob \<Longrightarrow>
   image_of_parts (pre @ p # post) = Inr (''data:image/png;base64,'' @ template_string (data blob))"
  by (induction pre) simp_all

lemma image_of_parts_Inl: "image_of_parts ps = Inl e \<Longrightarrow> e = synthesis_failure"
  by (induction ps) (auto split: option.splits)

text \<open>
  The service's answer may come after transient failures that the wrapper retried;
  the synthesizer then gives what it makes of that answer.
\<close>

lemma generateImage_answered:
  assumes "\<forall>i<k. \<exists>e. api i = Inl e \<and> isTransient e" and "api k = Inr r" and "k \<le> 2"
  shows "generateImage api = (image_of_response r, backoff_events 1000 k @ [Invoke])"
proof -
  define fn where "fn = (\<lambda>n. case api n of Inl e \<Rightarrow> Inl e | Inr r \<Rightarrow> image_of_response r)"
  have failing: "\<forall>i<k. \<exists>e. fn i = Inl e \<and> isTransient e"
    using assms(1) by (auto simp: fn_def)
  have last: "fn k = image_of_response r"
    using assms(2) by (simp add: fn_def)
  have le: "int k \<le> 2"
    using assms(3) by simp
  have "withRetry fn 2 1000 0 = (image_of_response r, backoff_events 1000 k @ [Invoke])"
  proof (cases "image_of_response r")
    case (Inl e)
    then have "e = synthesis_failure"
      unfolding image_of_response_def by (rule image_of_parts_Inl)
    then have "\<not> isTransient e \<or> (2::int) = int k"
      by (simp add: synthesis_failure_not_transient)
    with failing last Inl le show ?thesis
      by (simp add: retry_then_give_up)
  next
    case (Inr uri)
    with failing last le show ?thesis
      by (simp add: retry_then_success)
  qed
  then show ?thesis
    by (simp add: generateImage_def withRetry_default_def MAX_RETRIES_def INITIAL_BACKOFF_def fn_def)
qed

text \<open>
  Claim C6. Whenever the service answers the request for an image, at once or after
  retried transient failures: if no content part of the answer carries inline data, the
  synthesizer fails with its synthesis-failure error (which is not retried); otherwise
  it returns the payload of the first part that carries inline data, as a base64 data
  URI. For an answer whose inline-data part has the MIME type image/png and the payload
  QUJD the result is exactly data:image/png;base64,QUJD.
\<close>

theorem generateImage_inline_data_or_failure:
  assumes "\<forall>i<k. \<exists>e. api i = Inl e \<and> isTransient e" and "api k = Inr r" and "k \<le> 2"
  shows "((\<forall>p\<in>set (content_parts r). inlineData p = None) \<longrightarrow>
            fst (generateImage api) = Inl synthesis_failure
          \<and> attempts (snd (generateImage api)) = k + 1
          \<and> message synthesis_failure = Some ''Visual synthesis failed. The fragment might be too complex.'')
    \<and> (\<forall>pre p post mime payload.
          content_parts r = pre @ p # post \<and> (\<forall>q\<in>set pre. inlineData q = None)
          \<and> inlineData p = Some \<lparr>mimeType = mime, data = Some payload\<rparr> \<longrightarrow>
            fst (generateImage api) = Inr (''data:image/png;base64,'' @ payload))
    \<and> (content_parts r =
          [\<lparr>part_text = None, inlineData = Some \<lparr>mimeType = Some ''image/png'', data = Some ''QUJD''\<rparr>\<rparr>] \<longrightarrow>
            fst (generateImage api) = Inr ''data:image/png;base64,QUJD'')"
proof -
  note run = generateImage_answered [of k api r, OF assms]
  have none: "fst (generateImage api) = Inl synthesis_failure
      \<and> attempts (snd (generateImage api)) = k + 1"
    if "\<forall>p\<in>set (content_parts r). inlineData p = None"
    using that run
    by (simp add: image_of_response_def image_of_parts_none attempts_append attempts_backoff_events)
  have first: "fst (generateImage api) = Inr (''data:image/png;base64,'' @ payload)"
    if "content_parts r = pre @ p # post" "\<forall>q\<in>set pre. inlineData q = None"
      "inlineData p = Some \<lparr>mimeType = mime, data = Some payload\<rparr>"
    for pre p post mime payload
    using run image_of_parts_first [OF that(2,3), of post] that(1)
    by (simp add: image_of_response_def template_string_def)
  have png: "fst (generateImage api) = Inr ''data:image/png;base64,QUJD''"
    if "content_parts r =
          [\<lparr>part_text = None, inlineData = Some \<lparr>mimeType = Some ''image/png'', data = Some ''QUJD''\<rparr>\<rparr>]"
    using first [of "[]" _ "[]" "Some ''image/png''" "''QUJD''"] that by simp
  have msg: "message synthesis_failure = Some ''Visual synthesis failed. The fragment might be too complex.''"
    by (simp add: synthesis_failure_def new_Error_def)
  from none first png msg show ?thesis
    by blast
qed

theorem generateImage_inline_data_or_failure_witness:
  "answers png_response 0 = Inr png_response
    \<and> fst (generateImage (answers png_response)) = Inr ''data:image/png;base64,QUJD''
    \<and> answers text_only_response 0 = Inr text_only_response
    \<and> fst (generateImage (answers text_only_response)) = Inl synthesis_failure
    \<and> attempts (snd (generateImage (answers text_only_response))) = 1"
proof -
  have a: "answers png_response 0 = Inr png_response"
    "answers text_only_response 0 = Inr text_only_response"
    by (simp_all add: answers_def)
  have parts: "content_parts png_response =
      [\<lparr>part_text = Some ''Here is the reconstruction.'', inlineData = None\<rparr>]
      @ \<lparr>part_text = None, inlineData = Some \<lparr>mimeType = Some ''image/png'', data = Some ''QUJD''\<rparr>\<rparr> # []"
    by (simp add: content_parts_def first_candidate_def png_response_def)
  have text_parts: "content_parts text_only_response =
      [\<lparr>part_text = Some ''I cannot draw this.'', inlineData = None\<rparr>]"
    by (simp add: content_parts_def first_candidate_def text_only_response_def)
  have first: "\<forall>i<0. \<exists>e. api i = Inl e \<and> isTransient e" "(0::nat) \<le> 2" for api :: "response operation"
    by simp_all
  note text_only = generateImage_inline_data_or_failure
    [of 0 "answers text_only_response" text_only_response, OF first(1) a(2) first(2)]
  note png = generateImage_inline_data_or_failure
    [of 0 "answers png_response" png_response, OF first(1) a(1) first(2)]
  from text_only [THEN conjunct1] text_parts
  have failed: "fst (generateImage (answers text_only_response)) = Inl synthesis_failure"
    "attempts (snd (generateImage (answers text_only_response))) = 1"
    by simp_all
  from png [THEN conjunct2, THEN conjunct1, rule_format, of
      "[\<lparr>part_text = Some ''Here is the reconstruction.'', inlineData = None\<rparr>]"
      "\<lparr>part_text = None, inlineData = Some \<lparr>mimeType = Some ''image/png'', data = Some ''QUJD''\<rparr>\<rparr>"
      "[]" "Some ''image/png''" "''QUJD''"] parts
  have "fst (generateImage (answers png_response)) = Inr ''data:image/png;base64,QUJD''"
    by simp
  with failed a show ?thesis
    by simp
qed

text \<open>
  Claim C10. Whenever a content part of the answer carries inline data, the data URI
  the synthesizer returns starts with the fixed string data:image/png;base64, whatever
  MIME type the inline data records: a payload recorded as image/jpeg is labelled
  image/png all the same.
\<close>

theorem generateImage_labels_png_whatever_mime:
  assumes "\<forall>i<k. \<exists>e. api i = Inl e \<and> isTransient e" and "api k = Inr r" and "k \<le> 2"
    and "content_parts r = pre @ p # post"
    and "\<forall>q\<in>set pre. inlineData q = None"
    and "inlineData p = Some blob"
  shows "(\<exists>rest. fst (generateImage api) = Inr (''data:image/png;base64,'' @ rest))
    \<and> (\<forall>payload. mimeType blob = Some ''image/jpeg'' \<and> data blob = Some payload \<longrightarrow>
          fst (generateImage api) = Inr (''data:image/png;base64,'' @ payload))"
proof -
  have "fst (generateImage api) =
      Inr (''data:image/png;base64,'' @ template_string (data blob))"
    using generateImage_answered [of k api r, OF assms(1,2,3)]
      image_of_parts_first [OF assms(5,6), of post] assms(4)
    by (simp add: image_of_response_def)
  then show ?thesis
    by (auto simp: template_string_def)
qed

theorem generateImage_labels_png_whatever_mime_witness:
  "answers jpeg_response 0 = Inr jpeg_response
    \<and> content_parts jpeg_response =
        [] @ \<lparr>part_text = None, inlineData = Some \<lparr>mimeType = Some ''image/jpeg'', data = Some ''QUJD''\<rparr>\<rparr> # []
    \<and> fst (generateImage (answers jpeg_response)) = Inr ''data:image/png;base64,QUJD''"
proof -
  have a: "answers jpeg_response 0 = Inr jpeg_response"
    by (simp add: answers_def)
  have parts: "content_parts jpeg_response =
      [] @ \<lparr>part_text = None, inlineData = Some \<lparr>mimeType = Some ''image/jpeg'', data = Some ''QUJD''\<rparr>\<rparr> # []"
    by (simp add: content_parts_def first_candidate_def jpeg_response_def)
  have none: "\<forall>q\<in>set []. inlineData q = None"
    by simp
  have first: "\<forall>i<0. \<exists>e. answers jpeg_response i = Inl e \<and> isTransient e" "(0::nat) \<le> 2"
    by simp_all
  from generateImage_labels_png_whatever_mime
    [of 0 "answers jpeg_response" jpeg_response, OF first(1) a first(2) parts none]
  have "fst (generateImage (answers jpeg_response)) = Inr (''data:image/png;base64,'' @ ''QUJD'')"
    by simp
  with a parts show ?thesis
    by simp
qed

section \<open>Artifact analyzer: the properties\<close>

lemma push_sources_eq:
  "push_sources chunks acc = acc @ map source_entry (List.map_filter web chunks)"
  by (induction chunks arbitrary: acc) (auto simp: List.map_filter_simps split: option.splits)

lemma map_of_set_own: "map_of (set_own ps k v) k = Some v"
  by (induction ps) auto

lemma js_get_js_set: "js_set eng a k v = Inr a' \<Longrightarrow> js_get eng a' k = Inr v"
  by (cases a) (auto simp: map_of_set_own)

lemma withRetry_Inr_origin:
  "fst (withRetry fn retries delay n) = Inr v \<Longrightarrow> \<exists>k. fn (n + k) = Inr v"
proof (induction fn retries delay n rule: withRetry.induct)
  case (1 fn retries delay n)
  show ?case
  proof (cases "fn n")
    case (Inr w)
    with "1.prems" have "w = v"
      by (subst (asm) withRetry.simps) simp
    with Inr have "fn (n + 0) = Inr v"
      by simp
    then show ?thesis ..
  next
    case (Inl e)
    show ?thesis
    proof (cases "isTransient e \<and> 0 < retries")
      case True
      with Inl "1.prems" have "fst (withRetry fn (retries - 1) (delay * 2) (Suc n)) = Inr v"
        by (subst (asm) withRetry.simps) (simp split: prod.splits)
      from "1.IH" [OF Inl True this] obtain k where "fn (Suc n + k) = Inr v" ..
      then have "fn (n + Suc k) = Inr v"
        by simp
      then show ?thesis ..
    next
      case False
      with Inl "1.prems" show ?thesis
        by (subst (asm) withRetry.simps) auto
    qed
  qed
qed

lemma sources_of_analysis:
  assumes "analysis_of_response eng r = Inr a"
  shows "js_get eng a ''sources'' =
    Inr (Arr (case grounding_chunks_of r of
                None \<Rightarrow> []
              | Some chunks \<Rightarrow> map source_entry (List.map_filter web chunks)) [])"
proof -
  have "collect_sources r =
      (case grounding_chunks_of r of
         None \<Rightarrow> []
       | Some chunks \<Rightarrow> map source_entry (List.map_filter web chunks))"
    by (simp add: collect_sources_def push_sources_eq split: option.splits)
  moreover from assms obtain parsed
    where "js_set eng parsed ''sources'' (Arr (collect_sources r) []) = Inr a"
    by (auto simp: analysis_of_response_def Let_def split: sum.splits)
  then have "js_get eng a ''sources'' = Inr (Arr (collect_sources r) [])"
    by (rule js_get_js_set)
  ultimately show ?thesis
    by simp
qed

lemma analyzeArtifact_answered:
  assumes "\<forall>i<k. \<exists>e. api i = Inl e \<and> isTransient e" and "api k = Inr r" and "k \<le> 2"
    and "analysis_of_response eng r = Inr a"
  shows "analyzeArtifact eng api = (Inr a, backoff_events 1000 k @ [Invoke])"
proof -
  define fn where "fn = (\<lambda>n. case api n of Inl e \<Rightarrow> Inl e | Inr r \<Rightarrow> analysis_of_response eng r)"
  have "\<forall>i<k. \<exists>e. fn i = Inl e \<and> isTransient e"
    using assms(1) by (auto simp: fn_def)
  moreover have "fn k = Inr a"
    using assms(2,4) by (simp add: fn_def)
  moreover have "int k \<le> 2"
    using assms(3) by simp
  ultimately have "withRetry fn 2 1000 0 = (Inr a, backoff_events 1000 k @ [Invoke])"
    by (rule retry_then_success)
  then show ?thesis
    by (simp add: analyzeArtifact_def withRetry_default_def MAX_RETRIES_def INITIAL_BACKOFF_def fn_def)
qed

lemma analyzeArtifact_first_response:
  assumes "api 0 = Inr r" and "analysis_of_response eng r = Inr a"
  shows "analyzeArtifact eng api = (Inr a, [Invoke])"
  using analyzeArtifact_answered [of 0 api r eng a] assms by simp

text \<open>
  Claim C7. Every analysis the analyzer returns comes from a response of the service
  and has its sources property set from that response's web grounding chunks: one
  entry of title and uri per chunk that has a web citation, in order, and the empty list
  without grounding chunks; a citation without a title gets the title Museum Database
  Entry. With two chunks, the first titled and the second not, the list has the two
  entries and the second has the fallback title.
\<close>

theorem analyzeArtifact_sources_from_grounding:
  assumes "fst (analyzeArtifact eng api) = Inr a"
  shows "\<exists>k r. api k = Inr r
    \<and> js_get eng a ''sources'' =
        Inr (Arr (case grounding_chunks_of r of
                    None \<Rightarrow> []
                  | Some chunks \<Rightarrow> map source_entry (List.map_filter web chunks)) [])
    \<and> (\<forall>w. title w = None \<longrightarrow>
          js_get eng (source_entry w) ''title'' = Inr (Str ''Museum Database Entry''))
    \<and> (\<forall>c1 c2 t u1 u2.
          grounding_chunks_of r = Some [c1, c2] \<and> t \<noteq> []
          \<and> web c1 = Some \<lparr>title = Some t, uri = Some u1\<rparr>
          \<and> web c2 = Some \<lparr>title = None, uri = Some u2\<rparr> \<longrightarrow>
            js_get eng a ''sources'' =
              Inr (Arr [Obj [(''title'', Str t), (''uri'', Str u1)],
                        Obj [(''title'', Str ''Museum Database Entry''), (''uri'', Str u2)]] []))"
proof -
  from assms obtain k
    where "(case api (0 + k) of Inl e \<Rightarrow> Inl e | Inr r \<Rightarrow> analysis_of_response eng r) = Inr a"
    unfolding analyzeArtifact_def withRetry_default_def
    by (blast dest: withRetry_Inr_origin)
  then obtain r where r: "api k = Inr r" "analysis_of_response eng r = Inr a"
    by (auto split: sum.splits)
  note src = sources_of_analysis [OF r(2)]
  have fallback: "js_get eng (source_entry w) ''title'' = Inr (Str ''Museum Database Entry'')"
    if "title w = None" for w
    using that by (simp add: source_entry_def)
  have two: "js_get eng a ''sources'' =
      Inr (Arr [Obj [(''title'', Str t), (''uri'', Str u1)],
                Obj [(''title'', Str ''Museum Database Entry''), (''uri'', Str u2)]] [])"
    if "grounding_chunks_of r = Some [c1, c2]" "t \<noteq> []"
      "web c1 = Some \<lparr>title = Some t, uri = Some u1\<rparr>"
      "web c2 = Some \<lparr>title = None, uri = Some u2\<rparr>"
    for c1 c2 t u1 u2
    using that src by (simp add: List.map_filter_simps source_entry_def)
  from r(1) src fallback two show ?thesis
    by blast
qed

theorem analyzeArtifact_sources_from_grounding_witness:
  "\<exists>a. fst (analyzeArtifact sample_engine (answers grounded_response)) = Inr a
    \<and> js_get sample_engine a ''sources'' =
        Inr (Arr [Obj [(''title'', Str ''Harappa.com''), (''uri'', Str ''https://www.harappa.com/priest-king'')],
                  Obj [(''title'', Str ''Museum Database Entry''), (''uri'', Str ''https://museum.example/item/42'')]] [])"
proof -
  have parse: "JSON_parse sample_engine sample_analysis_text = Inr sample_analysis"
    by (simp add: sample_engine_def sample_analysis_text_def)
  have nonempty: "sample_analysis_text \<noteq> []"
    by (simp add: sample_analysis_text_def)
  have "\<exists>a. analysis_of_response sample_engine grounded_response = Inr a"
    by (simp add: analysis_of_response_def grounded_response_def parse nonempty sample_analysis_def)
  then obtain a where a: "analysis_of_response sample_engine grounded_response = Inr a" ..
  have "answers grounded_response 0 = Inr grounded_response"
    by (simp add: answers_def)
  from analyzeArtifact_first_response [of "answers grounded_response" grounded_response, OF this a]
  have run: "fst (analyzeArtifact sample_engine (answers grounded_response)) = Inr a"
    by simp
  have chunks: "grounding_chunks_of grounded_response = Some
      [\<lparr>web = Some \<lparr>title = Some ''Harappa.com'', uri = Some ''https://www.harappa.com/priest-king''\<rparr>\<rparr>,
       \<lparr>web = Some \<lparr>title = None, uri = Some ''https://museum.example/item/42''\<rparr>\<rparr>]"
    by (simp add: grounding_chunks_of_def first_candidate_def grounded_response_def)
  from analyzeArtifact_sources_from_grounding [of sample_engine "answers grounded_response" a, OF run]
  obtain k r where r: "answers grounded_response k = Inr r"
    and two: "\<forall>c1 c2 t u1 u2.
          grounding_chunks_of r = Some [c1, c2] \<and> t \<noteq> []
          \<and> web c1 = Some \<lparr>title = Some t, uri = Some u1\<rparr>
          \<and> web c2 = Some \<lparr>title = None, uri = Some u2\<rparr> \<longrightarrow>
            js_get sample_engine a ''sources'' =
              Inr (Arr [Obj [(''title'', Str t), (''uri'', Str u1)],
                        Obj [(''title'', Str ''Museum Database Entry''), (''uri'', Str u2)]] [])"
    by blast
  from r have "r = grounded_response"
    by (simp add: answers_def)
  with two [rule_format, of
      "\<lparr>web = Some \<lparr>title = Some ''Harappa.com'', uri = Some ''https://www.harappa.com/priest-king''\<rparr>\<rparr>"
      "\<lparr>web = Some \<lparr>title = None, uri = Some ''https://museum.example/item/42''\<rparr>\<rparr>"
      "''Harappa.com''" "''https://www.harappa.com/priest-king''" "''https://museum.example/item/42''"]
    chunks
  have "js_get sample_engine a ''sources'' =
        Inr (Arr [Obj [(''title'', Str ''Harappa.com''), (''uri'', Str ''https://www.harappa.com/priest-king'')],
                  Obj [(''title'', Str ''Museum Database Entry''), (''uri'', Str ''https://museum.example/item/42'')]] [])"
    by simp
  with run show ?thesis
    by blast
qed

text \<open>
  Claim C8, as stated, fails: for a response without text the analyzer parses the
  empty object, sets its sources and returns it. No error is raised, and the returned
  analysis has none of the required fields.
\<close>

theorem analyzeArtifact_textless_counterexample:
  "response_text textless_response = None
    \<and> analyzeArtifact sample_engine (answers textless_response) =
        (Inr (Obj [(''sources'', Arr [] [])]), [Invoke])"
proof -
  have "analysis_of_response sample_engine textless_response = Inr (Obj [(''sources'', Arr [] [])])"
    by (simp add: analysis_of_response_def textless_response_def sample_engine_def
        collect_sources_def grounding_chunks_of_def first_candidate_def)
  moreover have "answers textless_response 0 = Inr textless_response"
    by (simp add: answers_def)
  ultimately have "analyzeArtifact sample_engine (answers textless_response) =
        (Inr (Obj [(''sources'', Arr [] [])]), [Invoke])"
    by (intro analyzeArtifact_first_response [of _ textless_response])
  then show ?thesis
    by (simp add: textless_response_def)
qed

text \<open>
  Claim C8, amended. When the text of the service's answer is absent, the analyzer
  parses the empty-object string in its place and raises no parse error. It checks no
  required field: the call succeeds with that answer and returns an object whose only
  property is sources, in which every field the schema requires is undefined.
\<close>

theorem analyzeArtifact_absent_text_unchecked:
  assumes "\<forall>i<k. \<exists>e. api i = Inl e \<and> isTransient e" and "api k = Inr r" and "k \<le> 2"
    and "response_text r = None"
    and "JSON_parse eng ''{}'' = Inr (Obj [])"
  shows "fst (analyzeArtifact eng api) = Inr (Obj [(''sources'', Arr (collect_sources r) [])])
    \<and> attempts (snd (analyzeArtifact eng api)) = k + 1
    \<and> (\<forall>f\<in>set required_fields.
          js_get eng (Obj [(''sources'', Arr (collect_sources r) [])]) f = Inr Undefined)"
proof -
  have "analysis_of_response eng r = Inr (Obj [(''sources'', Arr (collect_sources r) [])])"
    using assms(4,5) by (simp add: analysis_of_response_def)
  from analyzeArtifact_answered [of k api r, OF assms(1,2,3) this]
  have "fst (analyzeArtifact eng api) = Inr (Obj [(''sources'', Arr (collect_sources r) [])])"
    and "attempts (snd (analyzeArtifact eng api)) = k + 1"
    by (simp_all add: attempts_append attempts_backoff_events)
  moreover have "\<forall>f\<in>set required_fields.
      js_get eng (Obj [(''sources'', Arr (collect_sources r) [])]) f = Inr Undefined"
    by (simp add: required_fields_def)
  ultimately show ?thesis
    by blast
qed

theorem analyzeArtifact_absent_text_unchecked_witness:
  "answers textless_response 0 = Inr textless_response
    \<and> response_text textless_response = None
    \<and> JSON_parse sample_engine ''{}'' = Inr (Obj [])
    \<and> fst (analyzeArtifact sample_engine (answers textless_response)) =
        Inr (Obj [(''sources'', Arr [] [])])
    \<and> attempts (snd (analyzeArtifact sample_engine (answers textless_response))) = 1
    \<and> js_get sample_engine (Obj [(''sources'', Arr [] [])]) ''pastReconstruction'' = Inr Undefined"
proof -
  have h: "answers textless_response 0 = Inr textless_response"
    "response_text textless_response = None"
    "JSON_parse sample_engine ''{}'' = Inr (Obj [])"
    by (simp_all add: answers_def textless_response_def sample_engine_def)
  have none: "collect_sources textless_response = []"
    by (simp add: collect_sources_def grounding_chunks_of_def first_candidate_def
        textless_response_def)
  from analyzeArtifact_absent_text_unchecked
    [of 0 "answers textless_response" textless_response sample_engine] h
  have "fst (analyzeArtifact sample_engine (answers textless_response)) =
      Inr (Obj [(''sources'', Arr [] [])])"
    and "attempts (snd (analyzeArtifact sample_engine (answers textless_response))) = 1"
    and "\<forall>f\<in>set required_fields. js_get sample_engine (Obj [(''sources'', Arr [] [])]) f = Inr Undefined"
    by (simp_all add: none)
  then show ?thesis
    using h by (simp add: required_fields_def)
qed

section \<open>Generation stage: the properties\<close>

lemma catch_failure_status: "app_status (catch_failure err s) = S_error"
  by (simp add: catch_failure_def Let_def)

lemma catch_failure_data: "app_data (catch_failure err s) = app_data s"
  by (simp add: catch_failure_def Let_def)

lemma catch_failure_error: "app_error (catch_failure err s) \<noteq> None"
  by (simp add: catch_failure_def Let_def)

lemma first_rejection_None: "first_rejection ps = None \<Longrightarrow> p \<in> set ps \<Longrightarrow> \<not> isl (snd p)"
  by (induction ps rule: first_rejection.induct) (auto split: option.splits if_splits)

lemma Promise_all_rejects:
  assumes "\<exists>p\<in>set ps. isl (snd p)"
  shows "\<exists>err. Promise_all ps = Inl err"
proof (cases "first_rejection ps")
  case None
  with assms show ?thesis
    by (blast dest: first_rejection_None)
next
  case (Some te)
  then show ?thesis
    by (cases te) (simp add: Promise_all_def)
qed

lemma generation_stage_rejected:
  assumes "isl (snd past) \<or> isl (snd present) \<or> isl (snd speech)"
  shows "\<exists>err. generation_stage eng a past present speech s =
    catch_failure err (s\<lparr>app_status := S_generating\<rparr>)"
proof -
  from assms have "\<exists>p\<in>set [past, present, speech]. isl (snd p)"
    by auto
  from Promise_all_rejects [OF this]
  obtain err where "Promise_all [past, present, speech] = Inl err" ..
  then show ?thesis
    by (cases "read_prompts eng a") (auto simp: generation_stage_def Let_def)
qed

text \<open>
  Claim C9. In every run of the generation stage in which one of the three concurrent
  requests (past image, present image, narration) fails, the stage ends with the status
  error and an error message, and nothing is written into the session's data: the past
  image, the present image and the audio keep the values they had before the stage.
  The same holds for the whole upload handler whose analysis succeeded.
\<close>

theorem generation_stage_all_or_nothing:
  assumes "isl (snd past) \<or> isl (snd present) \<or> isl (snd speech)"
  shows "app_status (generation_stage eng a past present speech s) = S_error
    \<and> app_error (generation_stage eng a past present speech s) \<noteq> None
    \<and> app_data (generation_stage eng a past present speech s) = app_data s
    \<and> (app_hasKey s \<longrightarrow>
          app_status (processFile eng aistudio base64 (Inr a) past present speech s) = S_error
        \<and> pastImage (app_data (processFile eng aistudio base64 (Inr a) past present speech s))
            = pastImage (app_data s)
        \<and> presentImage (app_data (processFile eng aistudio base64 (Inr a) past present speech s))
            = presentImage (app_data s)
        \<and> audioBlob (app_data (processFile eng aistudio base64 (Inr a) past present speech s))
            = audioBlob (app_data s))"
proof -
  have stage: "app_status (generation_stage eng a past present speech t) = S_error
    \<and> app_error (generation_stage eng a past present speech t) \<noteq> None
    \<and> app_data (generation_stage eng a past present speech t) = app_data t" for t
  proof -
    from generation_stage_rejected [OF assms] obtain err
      where "generation_stage eng a past present speech t =
        catch_failure err (t\<lparr>app_status := S_generating\<rparr>)"
      by blast
    then show ?thesis
      by (simp add: catch_failure_status catch_failure_data catch_failure_error)
  qed
  have "app_status (processFile eng aistudio base64 (Inr a) past present speech s) = S_error
        \<and> pastImage (app_data (processFile eng aistudio base64 (Inr a) past present speech s))
            = pastImage (app_data s)
        \<and> presentImage (app_data (processFile eng aistudio base64 (Inr a) past present speech s))
            = presentImage (app_data s)
        \<and> audioBlob (app_data (processFile eng aistudio base64 (Inr a) past present speech s))
            = audioBlob (app_data s)"
    if "app_hasKey s"
    using that by (simp add: processFile_def onload_def Let_def stage)
  with stage [of s] show ?thesis
    by blast
qed

theorem generation_stage_all_or_nothing_witness:
  "isl (snd narration_fails) \<and> app_hasKey initial_app
    \<and> app_status (processFile sample_engine True ''data:image/jpeg;base64,AAAA''
         (Inr sample_analysis) past_arrives present_arrives narration_fails initial_app) = S_error
    \<and> pastImage (app_data (processFile sample_engine True ''data:image/jpeg;base64,AAAA''
         (Inr sample_analysis) past_arrives present_arrives narration_fails initial_app))
        = Some ''https://placehold.co/600x600/121212/FFF.png?text=Reconstruction''
    \<and> presentImage (app_data (processFile sample_engine True ''data:image/jpeg;base64,AAAA''
         (Inr sample_analysis) past_arrives present_arrives narration_fails initial_app)) = None
    \<and> audioBlob (app_data (processFile sample_engine True ''data:image/jpeg;base64,AAAA''
         (Inr sample_analysis) past_arrives present_arrives narration_fails initial_app)) = None"
proof -
  have h: "isl (snd past_arrives) \<or> isl (snd present_arrives) \<or> isl (snd narration_fails)"
    by (simp add: narration_fails_def)
  have k: "app_hasKey initial_app"
    by (simp add: initial_app_def)
  from generation_stage_all_or_nothing [OF h, where s = initial_app and eng = sample_engine
      and a = sample_analysis and aistudio = True and ?base64.0 = "''data:image/jpeg;base64,AAAA''"] k
  show ?thesis
    by (simp add: initial_app_def narration_fails_def)
qed

text \<open>
  An analysis that has only its sources, as the analyzer returns it for an answer
  without text, stops the handler at the first argument of the generation stage:
  reading \<^verbatim>\<open>visualPrompt\<close> of the absent \<^verbatim>\<open>pastReconstruction\<close> throws, and the
  session ends in the error status.
\<close>

lemma read_prompts_without_fields:
  "read_prompts eng (Obj [(''sources'', srcs)]) = Inl (cannot_read eng Undefined ''visualPrompt'')"
  by (simp add: read_prompts_def js_get2_def)

lemma generation_stage_without_fields:
  "app_status (generation_stage eng (Obj [(''sources'', srcs)]) past present speech s) = S_error"
  by (simp add: generation_stage_def Let_def read_prompts_without_fields catch_failure_status)


end
